theory Spec2Isabelle
  imports Complex_Main "HOL-Library.Sublist"
begin

section \<open>JavaScript numbers, p5 helpers and random draws\<close>

text \<open>
  JavaScript numbers are modelled as reals: arithmetic is exact, so the rounding of
  IEEE doubles is idealised. The places where a JavaScript number can stop being a
  real (a division by zero, a property of the configuration that holds anything) are
  written out with the type \<open>jsnum\<close>.

  The p5 function \<open>random()\<close> returns the next draw of a generator. The generator is
  an explicit argument: an infinite sequence of draws, of which \<open>random\<close> takes the first.
\<close>

datatype jsnum = Num real | NaN | PosInf | NegInf

text \<open>
  A value found where a number is expected. It is a number, or a truthy value of
  another type (a non-empty string, an object, \<open>true\<close>), which is given by the number
  that the coercion of \<open>Math.min\<close> makes of it: 3 for the string "3", \<open>NaN\<close> for "abc".
  The falsy values of the other types (\<open>undefined\<close>, \<open>null\<close>, \<open>false\<close>, the empty string)
  behave in \<open>a || b\<close> like an absent property.
\<close>

datatype jsvalue = Number jsnum | Coerced jsnum

text \<open>Truthiness: among the numbers, 0 and \<open>NaN\<close> are falsy.\<close>

fun truthy :: "jsvalue \<Rightarrow> bool" where
  "truthy (Number (Num r)) = (r \<noteq> 0)"
| "truthy (Number NaN) = False"
| "truthy (Number PosInf) = True"
| "truthy (Number NegInf) = True"
| "truthy (Coerced n) = True"

fun toNumber :: "jsvalue \<Rightarrow> jsnum" where
  "toNumber (Number n) = n"
| "toNumber (Coerced n) = n"

text \<open>\<open>Math.min(a, b)\<close> for a number \<open>b\<close>: \<open>NaN\<close> when \<open>a\<close> is.\<close>

fun js_min :: "jsnum \<Rightarrow> real \<Rightarrow> jsnum" where
  "js_min (Num a) b = Num (min a b)"
| "js_min NaN b = NaN"
| "js_min PosInf b = Num b"
| "js_min NegInf b = NegInf"

type_synonym rng = "nat \<Rightarrow> real"

definition random :: "rng \<Rightarrow> real \<times> rng" where
  "random g = (g 0, \<lambda>n. g (Suc n))"

text \<open>p5 \<open>random(lo, hi)\<close>: one draw, scaled.\<close>

definition random_range :: "real \<Rightarrow> real \<Rightarrow> rng \<Rightarrow> real \<times> rng" where
  "random_range lo hi g = (case random g of (r, g') \<Rightarrow> (r * (hi - lo) + lo, g'))"

text \<open>p5 \<open>map(n, start1, stop1, start2, stop2)\<close>, without clamping (the default).\<close>

definition map_range :: "real \<Rightarrow> real \<Rightarrow> real \<Rightarrow> real \<Rightarrow> real \<Rightarrow> real" where
  "map_range n start1 stop1 start2 stop2 =
     (n - start1) / (stop1 - start1) * (stop2 - start2) + start2"

text \<open>p5 \<open>dist(x1, y1, x2, y2)\<close>.\<close>

definition dist2 :: "real \<Rightarrow> real \<Rightarrow> real \<Rightarrow> real \<Rightarrow> real" where
  "dist2 xa ya xb yb = sqrt ((xb - xa) * (xb - xa) + (yb - ya) * (yb - ya))"

text \<open>p5 \<open>color(r, g, b)\<close>: the three channels.\<close>

datatype color = Color real real real

section \<open>Grammar engine: \<open>LSystem.generate\<close> (lsystem.js)\<close>

text \<open>
  A rule of the table is a replacement string, an array of \<open>[string, probability]\<close>
  pairs, or a function returning a string (which may draw random numbers).
\<close>

datatype rule =
    Literal string
  | Weighted "(string \<times> real) list"
  | Generator "rng \<Rightarrow> string \<times> rng"

type_synonym rules = "char \<Rightarrow> rule option"

text \<open>A line segment and a fruit anchor, as \<open>process\<close> pushes them.\<close>

record segment =
  x1 :: real
  y1 :: real
  x2 :: real
  y2 :: real
  depth :: nat
  thickness :: real
  originalAngle :: real
  color :: color
  isRoot :: bool

record fruit =
  fruit_x :: real
  fruit_y :: real
  fruit_size :: real
  fruit_color :: color
  fruit_angle :: real

text \<open>
  The configuration object of the constructor: every property may be absent.
  Nothing checks the iteration count, so it is any value: a negative number, a
  fraction, \<open>NaN\<close> or a string are all accepted.
\<close>

record config =
  cfg_axiom :: "string option"
  cfg_rules :: "rules option"
  cfg_angle :: "real option"
  cfg_iterations :: "jsvalue option"
  cfg_colorVariation :: "bool option"
  cfg_fruitProbability :: "real option"
  cfg_fruitColor :: "color option"
  cfg_leafColor :: "color option"
  cfg_stemColor :: "color option"

record lsystem =
  axiom :: string
  rules :: rules
  angle :: real
  iterations :: jsnum
  segments :: "segment list"
  colorVariation :: bool
  fruitProbability :: real
  fruitColor :: color
  leafColor :: color
  stemColor :: color
  production :: string
  fruits :: "fruit list"

text \<open>
  The loop over the \<open>[rule, probability]\<close> pairs of a weighted rule: the first pair
  whose cumulative probability exceeds the draw is taken; \<open>None\<close> when no pair is
  (\<open>applied\<close> stays false).
\<close>

fun weighted_choice :: "real \<Rightarrow> real \<Rightarrow> (string \<times> real) list \<Rightarrow> string option" where
  "weighted_choice rand cumulativeProbability [] = None"
| "weighted_choice rand cumulativeProbability ((r, probability) # rest) =
     (if rand < cumulativeProbability + probability then Some r
      else weighted_choice rand (cumulativeProbability + probability) rest)"

text \<open>
  What one symbol contributes to \<open>nextGen\<close>. The test \<open>if (this.rules[current])\<close> is
  a truthiness test: a missing rule and the empty replacement string are both falsy,
  and the symbol is kept.
\<close>

definition rewrite_symbol :: "rules \<Rightarrow> char \<Rightarrow> rng \<Rightarrow> string \<times> rng" where
  "rewrite_symbol rs current g =
     (case rs current of
        None \<Rightarrow> ([current], g)
      | Some (Literal s) \<Rightarrow> (if s = [] then ([current], g) else (s, g))
      | Some (Generator f) \<Rightarrow> f g
      | Some (Weighted ws) \<Rightarrow>
          (case random g of (rand, g') \<Rightarrow>
             (case weighted_choice rand 0 ws of
                Some s \<Rightarrow> (s, g')
              | None \<Rightarrow> ([current], g'))))"

text \<open>The inner loop over the symbols of \<open>result\<close>, accumulating \<open>nextGen\<close>.\<close>

fun next_generation :: "rules \<Rightarrow> string \<Rightarrow> string \<Rightarrow> rng \<Rightarrow> string \<times> rng" where
  "next_generation rs [] nextGen g = (nextGen, g)"
| "next_generation rs (current # rest) nextGen g =
     (case rewrite_symbol rs current g of
        (s, g') \<Rightarrow> next_generation rs rest (nextGen @ s) g')"

text \<open>
  The outer loop, with the number of iterations still to run. After each generation
  the length is checked; a result longer than 2000 is cut and the loop is left.
  The check is inside the loop body: when the body never runs, nothing is checked.
\<close>

fun generate_loop :: "rules \<Rightarrow> nat \<Rightarrow> string \<Rightarrow> rng \<Rightarrow> string \<times> rng" where
  "generate_loop rs 0 result g = (result, g)"
| "generate_loop rs (Suc n) result g =
     (case next_generation rs result [] g of
        (nextGen, g') \<Rightarrow>
          if length nextGen > 2000 then (take 2000 nextGen, g')
          else generate_loop rs n nextGen g')"

text \<open>
  How often the guard \<open>i < this.iterations\<close> of \<open>for (let i = 0; ...; i++)\<close> lets the body
  run: for a number \<open>r\<close> once for each integer \<open>0 \<le> i < r\<close>, so not at all when \<open>r \<le> 0\<close>
  and three times when \<open>r = 2.5\<close>; a comparison with \<open>NaN\<close> is false. With \<open>+Infinity\<close> the
  loop would be left by its \<open>break\<close> only; the constructor, the one place that writes
  the field, stores the result of \<open>Math.min(_, 4)\<close>, which is never \<open>+Infinity\<close>, and the
  count given for it here is read by nothing.
\<close>

fun loop_runs :: "jsnum \<Rightarrow> nat" where
  "loop_runs (Num r) = nat \<lceil>r\<rceil>"
| "loop_runs NaN = 0"
| "loop_runs NegInf = 0"
| "loop_runs PosInf = 0"

definition generate :: "lsystem \<Rightarrow> rng \<Rightarrow> lsystem \<times> rng" where
  "generate l g =
     (case generate_loop (rules l) (loop_runs (iterations l)) (axiom l) g of
        (result, g') \<Rightarrow> (l\<lparr>production := result\<rparr>, g'))"

text \<open>
  The constructor. \<open>a || b\<close> takes \<open>b\<close> when \<open>a\<close> is absent or falsy: the empty string,
  the number 0 and \<open>false\<close> are falsy. The table of colour themes is never read and is
  left out.
\<close>

definition default_rules :: rules where
  "default_rules = [CHR ''F'' \<mapsto> Literal ''FF+[+F]-[-F]'']"

definition or_string :: "string option \<Rightarrow> string \<Rightarrow> string" where
  "or_string v d = (case v of None \<Rightarrow> d | Some s \<Rightarrow> if s = [] then d else s)"

definition or_real :: "real option \<Rightarrow> real \<Rightarrow> real" where
  "or_real v d = (case v of None \<Rightarrow> d | Some r \<Rightarrow> if r = 0 then d else r)"

definition or_number :: "jsvalue option \<Rightarrow> real \<Rightarrow> jsvalue" where
  "or_number v d =
     (case v of None \<Rightarrow> Number (Num d) | Some a \<Rightarrow> if truthy a then a else Number (Num d))"

definition or_value :: "'a option \<Rightarrow> 'a \<Rightarrow> 'a" where
  "or_value v d = (case v of None \<Rightarrow> d | Some a \<Rightarrow> a)"

definition LSystem :: "config \<Rightarrow> rng \<Rightarrow> lsystem \<times> rng" where
  "LSystem c g =
     generate
       \<lparr> axiom = or_string (cfg_axiom c) ''F'',
         rules = or_value (cfg_rules c) default_rules,
         angle = or_real (cfg_angle c) (pi / 7),
         iterations = js_min (toNumber (or_number (cfg_iterations c) 2)) 4,
         segments = [],
         colorVariation = or_value (cfg_colorVariation c) False,
         fruitProbability = or_real (cfg_fruitProbability c) 0,
         fruitColor = or_value (cfg_fruitColor c) (Color 255 50 50),
         leafColor = or_value (cfg_leafColor c) (Color 100 220 50),
         stemColor = or_value (cfg_stemColor c) (Color 80 120 40),
         production = [],
         fruits = [] \<rparr>
       g"

text \<open>The configuration with nothing set, to be updated field by field.\<close>

definition empty_config :: config where
  "empty_config =
     \<lparr> cfg_axiom = None, cfg_rules = None, cfg_angle = None, cfg_iterations = None,
       cfg_colorVariation = None, cfg_fruitProbability = None, cfg_fruitColor = None,
       cfg_leafColor = None, cfg_stemColor = None \<rparr>"

section \<open>Turtle interpreter: \<open>LSystem.process\<close> (lsystem.js)\<close>

text \<open>
  What a JavaScript call can raise in the code modelled here.
\<close>

datatype error = TypeError

text \<open>A state saved by \<open>[\<close>, and the local variables of \<open>process\<close>.\<close>

record saved =
  s_x :: real
  s_y :: real
  s_angle :: real
  s_thickness :: real
  s_color :: color

text \<open>
  \<open>t_stack\<close> has the most recently pushed state first. \<open>t_turn\<close> is \<open>this.angle\<close>,
  which the symbols \<open><\<close> and \<open>>\<close> change; \<open>t_rng\<close> is the random generator.
\<close>

record turtle =
  t_x :: real
  t_y :: real
  t_angle :: real
  t_thickness :: real
  t_color :: color
  t_stack :: "saved list"
  t_segments :: "segment list"
  t_fruits :: "fruit list"
  t_turn :: real
  t_rng :: rng

text \<open>
  One pass of the \<open>switch\<close>. In the case \<open>c\<close> with colour variation on, the source
  evaluates \<open>color(...)\<close>; inside \<open>process\<close> the name \<open>color\<close> is the local variable
  declared by \<open>let color = this.stemColor\<close>, a colour object and not the p5 function,
  so the call raises a TypeError. A symbol with no case changes nothing.
\<close>

definition turtle_step :: "lsystem \<Rightarrow> char \<Rightarrow> turtle \<Rightarrow> error + turtle" where
  "turtle_step l c t =
    (if c = CHR ''F'' \<or> c = CHR ''G'' then
       (let oldX = t_x t; oldY = t_y t;
            x = t_x t + cos (t_angle t) * 10;
            y = t_y t + sin (t_angle t) * 10
        in Inr (t\<lparr> t_x := x, t_y := y,
             t_segments := t_segments t @
               [\<lparr> x1 = oldX, y1 = oldY, x2 = x, y2 = y,
                  depth = length (t_stack t),
                  thickness = t_thickness t,
                  originalAngle = t_angle t,
                  color = t_color t,
                  isRoot = (length (t_stack t) = 0 \<and> oldY \<ge> -1) \<rparr>] \<rparr>))
     else if c = CHR ''f'' then
       Inr (t\<lparr> t_x := t_x t + cos (t_angle t) * 10,
              t_y := t_y t + sin (t_angle t) * 10 \<rparr>)
     else if c = CHR ''+'' then
       (case random_range 0.8 3 (t_rng t) of
          (r, g') \<Rightarrow> Inr (t\<lparr> t_angle := t_angle t + t_turn t * r, t_rng := g' \<rparr>))
     else if c = CHR ''-'' then
       (case random_range 0.8 3 (t_rng t) of
          (r, g') \<Rightarrow> Inr (t\<lparr> t_angle := t_angle t - t_turn t * r, t_rng := g' \<rparr>))
     else if c = CHR ''<'' then Inr (t\<lparr> t_turn := t_turn t * 0.8 \<rparr>)
     else if c = CHR ''>'' then Inr (t\<lparr> t_turn := t_turn t * 1.25 \<rparr>)
     else if c = CHR ''['' then
       Inr (t\<lparr> t_stack :=
                \<lparr> s_x = t_x t, s_y = t_y t, s_angle = t_angle t,
                  s_thickness = t_thickness t, s_color = t_color t \<rparr> # t_stack t,
              t_thickness := t_thickness t * 0.75 \<rparr>)
     else if c = CHR '']'' then
       (case t_stack t of
          [] \<Rightarrow> Inr t
        | state # below \<Rightarrow>
            Inr (t\<lparr> t_stack := below, t_x := s_x state, t_y := s_y state,
                   t_angle := s_angle state, t_thickness := s_thickness state,
                   t_color := s_color state \<rparr>))
     else if c = CHR ''!'' then Inr (t\<lparr> t_thickness := t_thickness t * 0.8 \<rparr>)
     else if c = CHR 0x22 then Inr (t\<lparr> t_thickness := t_thickness t * 1.2 \<rparr>)
     else if c = CHR ''*'' then
       (case random (t_rng t) of
          (r, g') \<Rightarrow>
            if r < fruitProbability l then
              (case random_range 5 12 g' of
                 (sz, g'') \<Rightarrow>
                   Inr (t\<lparr> t_fruits := t_fruits t @
                            [\<lparr> fruit_x = t_x t, fruit_y = t_y t, fruit_size = sz,
                               fruit_color = fruitColor l, fruit_angle = t_angle t \<rparr>],
                          t_rng := g'' \<rparr>))
            else Inr (t\<lparr> t_rng := g' \<rparr>))
     else if c = CHR ''c'' then
       (if colorVariation l then Inl TypeError else Inr t)
     else Inr t)"

text \<open>The loop over the production; an exception ends it.\<close>

fun turtle_run :: "lsystem \<Rightarrow> string \<Rightarrow> turtle \<Rightarrow> error + turtle" where
  "turtle_run l [] t = Inr t"
| "turtle_run l (c # rest) t =
     (case turtle_step l c t of
        Inl e \<Rightarrow> Inl e
      | Inr t' \<Rightarrow> turtle_run l rest t')"

text \<open>The turtle at the start of \<open>process\<close>: at the origin, heading up.\<close>

definition turtle_start :: "lsystem \<Rightarrow> rng \<Rightarrow> turtle" where
  "turtle_start l g =
     \<lparr> t_x = 0, t_y = 0, t_angle = - pi / 2, t_thickness = 1.0, t_color = stemColor l,
       t_stack = [], t_segments = [], t_fruits = [], t_turn = angle l, t_rng = g \<rparr>"

text \<open>
  \<open>process\<close> stores the segments and fruits in the L-system (whose \<open>angle\<close> the walk
  may have changed) and returns the segments.
\<close>

definition process :: "lsystem \<Rightarrow> rng \<Rightarrow> error + (lsystem \<times> rng)" where
  "process l g =
     (case turtle_run l (production l) (turtle_start l g) of
        Inl e \<Rightarrow> Inl e
      | Inr t \<Rightarrow>
          Inr (l\<lparr> segments := t_segments t, fruits := t_fruits t, angle := t_turn t \<rparr>,
               t_rng t))"

text \<open>The value \<open>process\<close> returns: the segments.\<close>

definition process_segments :: "lsystem \<Rightarrow> rng \<Rightarrow> error + segment list" where
  "process_segments l g =
     (case process l g of
        Inl e \<Rightarrow> Inl e
      | Inr (l', g') \<Rightarrow> Inr (segments l'))"

section \<open>Physics backend: \<open>MatterPhysics\<close> (physics.js)\<close>

text \<open>
  A force component handed to Matter.js is a JavaScript number: dividing by zero gives
  \<open>NaN\<close> (for 0 / 0) or an infinity, and both propagate through products and sums.
\<close>

definition js_div :: "real \<Rightarrow> real \<Rightarrow> jsnum" where
  "js_div a b =
     (if b \<noteq> 0 then Num (a / b)
      else if a = 0 then NaN
      else if a > 0 then PosInf else NegInf)"

fun js_mul :: "jsnum \<Rightarrow> real \<Rightarrow> jsnum" where
  "js_mul (Num a) m = Num (a * m)"
| "js_mul NaN m = NaN"
| "js_mul PosInf m = (if m = 0 then NaN else if m > 0 then PosInf else NegInf)"
| "js_mul NegInf m = (if m = 0 then NaN else if m > 0 then NegInf else PosInf)"

fun js_add :: "jsnum \<Rightarrow> jsnum \<Rightarrow> jsnum" where
  "js_add (Num a) (Num b) = Num (a + b)"
| "js_add NaN j = NaN"
| "js_add j NaN = NaN"
| "js_add PosInf NegInf = NaN"
| "js_add NegInf PosInf = NaN"
| "js_add PosInf j = PosInf"
| "js_add j PosInf = PosInf"
| "js_add NegInf j = NegInf"
| "js_add j NegInf = NegInf"

text \<open>
  A Matter.js body, with the properties this repository reads or writes. Bodies are
  objects: a body is known by its index in the object store \<open>heap\<close>, which plays the
  part of the JavaScript heap and is never shrunk, so that a reference held in a map
  stays valid after the tracking arrays are emptied.
\<close>

record body =
  pos_x :: real
  pos_y :: real
  mass :: real
  radius :: real
  isStatic :: bool
  original :: "(real \<times> real) option"
  fruitInfo :: "(real \<times> color) option"
  force :: "jsnum \<times> jsnum"

text \<open>
  A Matter.js constraint, with the annotations \<open>setupSegmentPhysics\<close> adds
  (\<open>a\<close> and \<open>b\<close> of the source are the same two bodies as \<open>bodyA\<close> and \<open>bodyB\<close>).
\<close>

record spring =
  bodyA :: nat
  bodyB :: nat
  len :: real
  stiffness :: real
  damping :: real
  segmentColor :: "color option"
  segmentThickness :: "real option"
  spring_depth :: "nat option"

text \<open>
  The tracking collections of \<open>MatterPhysics\<close>. The Matter.js engine, world and
  composite belong to the library and are not modelled; \<open>constraints\<close> is never written.
\<close>

record physics =
  heap :: "body list"
  bodies :: "nat list"
  springs :: "spring list"
  fixedBodies :: "nat set"

definition springStiffness :: real where "springStiffness = 0.005"
definition springDamping :: real where "springDamping = 0.03"
definition constraintStiffness :: real where "constraintStiffness = 0.15"

definition MatterPhysics :: physics where
  "MatterPhysics = \<lparr> heap = [], bodies = [], springs = [], fixedBodies = {} \<rparr>"

text \<open>\<open>fixParticle\<close>: the body becomes static and remembers its position.\<close>

definition fixParticle :: "nat \<Rightarrow> physics \<Rightarrow> physics" where
  "fixParticle particle ph =
     ph\<lparr> heap := (heap ph)[particle := (heap ph ! particle)
              \<lparr> isStatic := True,
                original := Some (pos_x (heap ph ! particle), pos_y (heap ph ! particle)) \<rparr>],
         fixedBodies := insert particle (fixedBodies ph) \<rparr>"

text \<open>\<open>createParticle(x, y, mass, isFixed)\<close> returns the new body.\<close>

definition createParticle :: "real \<Rightarrow> real \<Rightarrow> real \<Rightarrow> bool \<Rightarrow> physics \<Rightarrow> nat \<times> physics" where
  "createParticle px py m isFixed ph =
     (let b = length (heap ph);
          ph' = ph\<lparr> heap := heap ph @
                    [\<lparr> pos_x = px, pos_y = py, mass = m * 50, radius = max 2 (m * 15),
                       isStatic = False, original = None, fruitInfo = None,
                       force = (Num 0, Num 0) \<rparr>],
                  bodies := bodies ph @ [b] \<rparr>
      in (b, if isFixed then fixParticle b ph' else ph'))"

text \<open>
  \<open>createSpring(particleA, particleB, strength, restLength)\<close>. A missing particle
  (\<open>null\<close> or \<open>undefined\<close>) is \<open>None\<close>; the result is the index of the new
  constraint in \<open>springs\<close>, or \<open>None\<close> for \<open>null\<close>. The only check is for missing
  particles.
\<close>

definition createSpring ::
    "nat option \<Rightarrow> nat option \<Rightarrow> real \<Rightarrow> real \<Rightarrow> physics \<Rightarrow> nat option \<times> physics" where
  "createSpring particleA particleB strength restLength ph =
     (case particleA of
        None \<Rightarrow> (None, ph)
      | Some a \<Rightarrow>
         (case particleB of
            None \<Rightarrow> (None, ph)
          | Some b \<Rightarrow>
             (let dx = pos_x (heap ph ! a) - pos_x (heap ph ! b);
                  dy = pos_y (heap ph ! a) - pos_y (heap ph ! b);
                  restLength' = (if restLength < 0 then sqrt (dx * dx + dy * dy)
                                 else restLength);
                  constraint = \<lparr> bodyA = a, bodyB = b, len = restLength',
                                 stiffness = strength * 5, damping = springDamping,
                                 segmentColor = None, segmentThickness = None,
                                 spring_depth = None \<rparr>
              in (Some (length (springs ph)), ph\<lparr> springs := springs ph @ [constraint] \<rparr>))))"

text \<open>
  \<open>createAngleConstraint(particleA, particleB, particleC, targetAngle, strength)\<close>:
  a spring between A and C whose rest length comes from the law of cosines.
\<close>

definition createAngleConstraint ::
    "nat option \<Rightarrow> nat option \<Rightarrow> nat option \<Rightarrow> real \<Rightarrow> real \<Rightarrow> physics
      \<Rightarrow> nat option \<times> physics" where
  "createAngleConstraint particleA particleB particleC targetAngle strength ph =
     (case (particleA, particleB, particleC) of
        (Some a, Some b, Some c) \<Rightarrow>
          (let lenAB = dist2 (pos_x (heap ph ! a)) (pos_y (heap ph ! a))
                             (pos_x (heap ph ! b)) (pos_y (heap ph ! b));
               lenBC = dist2 (pos_x (heap ph ! b)) (pos_y (heap ph ! b))
                             (pos_x (heap ph ! c)) (pos_y (heap ph ! c))
           in if lenAB = 0 \<or> lenBC = 0 then (None, ph)
              else createSpring (Some a) (Some c) (strength * 0.05)
                     (sqrt (lenAB * lenAB + lenBC * lenBC
                            - 2 * lenAB * lenBC * cos targetAngle)) ph)
      | _ \<Rightarrow> (None, ph))"

text \<open>\<open>clear\<close> empties the tracking collections; the objects themselves remain.\<close>

definition clear :: "physics \<Rightarrow> physics" where
  "clear ph = ph\<lparr> springs := [], bodies := [], fixedBodies := {} \<rparr>"

section \<open>Physics graph builder and growth scheduler: \<open>ToxicPlant\<close> (garden.js)\<close>

text \<open>
  \<open>v.toFixed(2)\<close> writes a minus sign when \<open>v < 0\<close>, then the integer \<open>n\<close> of
  hundredths nearest to the absolute value (the larger one on a tie) with a decimal
  point before its last two digits. The string is determined by, and determines, the
  sign and \<open>n\<close>; these two stand for it. The key of a point is the pair of the strings
  of its two coordinates.
\<close>

definition toFixed2 :: "real \<Rightarrow> bool \<times> nat" where
  "toFixed2 v = (v < 0, nat \<lfloor>\<bar>v\<bar> * 100 + 1 / 2\<rfloor>)"

type_synonym key = "(bool \<times> nat) \<times> (bool \<times> nat)"

definition point_key :: "real \<Rightarrow> real \<Rightarrow> key" where
  "point_key px py = (toFixed2 px, toFixed2 py)"

definition startKey :: "segment \<Rightarrow> key" where
  "startKey s = point_key (x1 s) (y1 s)"

definition endKey :: "segment \<Rightarrow> key" where
  "endKey s = point_key (x2 s) (y2 s)"

text \<open>
  The plant. \<open>particleMap\<close> is a JavaScript \<open>Map\<close>: an association list in insertion
  order (the code never sets a key that is present). \<open>targetGrowth\<close> and \<open>growthRate\<close>
  are set once by the constructor and are constants here. \<open>segmentToSpring\<close>, which
  only the drawing code reads, is left out. \<open>constraintsAdded\<close> and \<open>fruitsAdded\<close>
  are undefined, hence falsy, until the growth step sets them.
\<close>

record plant =
  plant_x :: real
  plant_y :: real
  growth :: real
  stemThickness :: real
  plant_lsystem :: lsystem
  plant_segments :: "segment list"
  plant_fruits :: "fruit list"
  scaleFactor :: real
  physics :: physics
  particleMap :: "(key \<times> nat) list"
  fruitParticles :: "nat list"
  lastSegmentIndex :: nat
  totalSegments :: nat
  growingPhase :: bool
  constraintsAdded :: bool
  fruitsAdded :: bool

definition targetGrowth :: real where "targetGrowth = 1"
definition growthRate :: real where "growthRate = 0.03"

text \<open>\<open>segment.thickness || 1.0\<close>.\<close>

definition thicknessFactor :: "segment \<Rightarrow> real" where
  "thicknessFactor s = (if thickness s = 0 then 1.0 else thickness s)"

text \<open>The masses given to a new start point and to a new end point.\<close>

definition startMass :: "segment \<Rightarrow> real" where
  "startMass s = map_range (real (depth s)) 0 10 2 0.2 * thicknessFactor s"

definition endMass :: "segment \<Rightarrow> real" where
  "endMass s = map_range (real (depth s)) 0 10 0.5 0.05 * thicknessFactor s"

text \<open>
  The first half of \<open>setupSegmentPhysics\<close>: the particle of the start point, taken from
  the map when its key is there, created (fixed when the segment is a root) and
  entered in the map otherwise.
\<close>

definition startParticle :: "segment \<Rightarrow> plant \<Rightarrow> nat \<times> plant" where
  "startParticle s p =
     (case map_of (particleMap p) (startKey s) of
        Some b \<Rightarrow> (b, p)
      | None \<Rightarrow>
          (case createParticle (plant_x p + x1 s * scaleFactor p)
                  (plant_y p + y1 s * scaleFactor p) (startMass s) (isRoot s) (physics p) of
             (b, ph) \<Rightarrow>
               (b, p\<lparr> physics := ph,
                      particleMap := particleMap p @ [(startKey s, b)] \<rparr>)))"

text \<open>The second half: the particle of the end point, never created fixed.\<close>

definition endParticle :: "segment \<Rightarrow> plant \<Rightarrow> nat \<times> plant" where
  "endParticle s p =
     (case map_of (particleMap p) (endKey s) of
        Some b \<Rightarrow> (b, p)
      | None \<Rightarrow>
          (case createParticle (plant_x p + x2 s * scaleFactor p)
                  (plant_y p + y2 s * scaleFactor p) (endMass s) False (physics p) of
             (b, ph) \<Rightarrow>
               (b, p\<lparr> physics := ph,
                      particleMap := particleMap p @ [(endKey s, b)] \<rparr>)))"

text \<open>The annotations written on the spring of a segment.\<close>

definition annotate :: "segment \<Rightarrow> nat option \<Rightarrow> physics \<Rightarrow> physics" where
  "annotate s sp ph =
     (case sp of
        None \<Rightarrow> ph
      | Some i \<Rightarrow>
          ph\<lparr> springs := (springs ph)[i := (springs ph ! i)
                 \<lparr> segmentColor := Some (color s),
                   segmentThickness := Some (thicknessFactor s),
                   spring_depth := Some (depth s) \<rparr>] \<rparr>)"

definition setupSegmentPhysics :: "segment \<Rightarrow> plant \<Rightarrow> plant" where
  "setupSegmentPhysics s p =
     (case startParticle s p of
        (a, p1) \<Rightarrow>
          (case endParticle s p1 of
             (b, p2) \<Rightarrow>
               (case createSpring (Some a) (Some b)
                       (map_range (real (depth s)) 0 10 0.05 0.01 * thicknessFactor s)
                       (- 1) (physics p2) of
                  (sp, ph) \<Rightarrow> p2\<lparr> physics := annotate s sp ph \<rparr>)))"

text \<open>
  \<open>setupInitialRoot\<close>: the first three segments of depth 0 are materialised, and
  \<open>lastSegmentIndex\<close> is set to their number.
\<close>

definition setupInitialRoot :: "plant \<Rightarrow> plant" where
  "setupInitialRoot p =
     (let rootSegments = take 3 (filter (\<lambda>s. depth s = 0) (plant_segments p))
      in (fold setupSegmentPhysics rootSegments p)
           \<lparr> lastSegmentIndex := length rootSegments \<rparr>)"

text \<open>
  \<open>addFruits\<close>. The nearest particle is searched in the order of the map, with a
  strict comparison, starting from no particle at distance infinity.
\<close>

fun nearestParticle ::
    "body list \<Rightarrow> real \<Rightarrow> real \<Rightarrow> (key \<times> nat) list \<Rightarrow> (nat \<times> real) option
      \<Rightarrow> (nat \<times> real) option" where
  "nearestParticle hp fx fy [] best = best"
| "nearestParticle hp fx fy ((k, particle) # rest) best =
     (let distance = dist2 fx fy (pos_x (hp ! particle)) (pos_y (hp ! particle))
      in nearestParticle hp fx fy rest
           (case best of
              None \<Rightarrow> Some (particle, distance)
            | Some (q, minDistance) \<Rightarrow>
                if distance < minDistance then Some (particle, distance)
                else Some (q, minDistance)))"

definition addFruit :: "fruit \<Rightarrow> plant \<Rightarrow> plant" where
  "addFruit fr p =
     (let fx = plant_x p + fruit_x fr * scaleFactor p;
          fy = plant_y p + fruit_y fr * scaleFactor p
      in case nearestParticle (heap (physics p)) fx fy (particleMap p) None of
           None \<Rightarrow> p
         | Some (nearest, d) \<Rightarrow>
             (case createParticle fx fy 0.3 False (physics p) of
                (fruitParticle, ph1) \<Rightarrow>
                  (case createSpring (Some nearest) (Some fruitParticle) 0.005
                          (fruit_size fr * 1.2) ph1 of
                     (sp, ph2) \<Rightarrow>
                       p\<lparr> physics := ph2\<lparr> heap := (heap ph2)[fruitParticle :=
                                (heap ph2 ! fruitParticle)
                                  \<lparr> fruitInfo := Some (fruit_size fr * scaleFactor p,
                                                        fruit_color fr) \<rparr>] \<rparr>,
                          fruitParticles := fruitParticles p @ [fruitParticle] \<rparr>)))"

definition addFruits :: "plant \<Rightarrow> plant" where
  "addFruits p = fold addFruit (plant_fruits p) p"

text \<open>
  \<open>addAngleConstraints\<close>. \<open>startPointMap\<close> groups the segments by start key, in the
  order in which the keys first occur.
\<close>

fun group_insert :: "key \<Rightarrow> segment \<Rightarrow> (key \<times> segment list) list \<Rightarrow> (key \<times> segment list) list" where
  "group_insert k s [] = [(k, [s])]"
| "group_insert k s ((k', ss) # rest) =
     (if k = k' then (k', ss @ [s]) # rest else (k', ss) # group_insert k s rest)"

definition startPointMap :: "segment list \<Rightarrow> (key \<times> segment list) list" where
  "startPointMap segs = fold (\<lambda>s m. group_insert (startKey s) s m) segs []"

text \<open>The pairs \<open>(segments[i], segments[j])\<close> with \<open>i < j\<close>, in the order of the two loops.\<close>

fun pairs :: "'a list \<Rightarrow> ('a \<times> 'a) list" where
  "pairs [] = []"
| "pairs (x # xs) = map (Pair x) xs @ pairs xs"

definition constrainPair :: "nat option \<Rightarrow> segment \<times> segment \<Rightarrow> plant \<Rightarrow> plant" where
  "constrainPair commonParticle ab p =
     (case ab of (segmentA, segmentB) \<Rightarrow>
        (case map_of (particleMap p) (endKey segmentA) of
           None \<Rightarrow> p
         | Some endParticleA \<Rightarrow>
             (case map_of (particleMap p) (endKey segmentB) of
                None \<Rightarrow> p
              | Some endParticleB \<Rightarrow>
                  p\<lparr> physics := snd (createAngleConstraint (Some endParticleA) commonParticle
                        (Some endParticleB)
                        \<bar>originalAngle segmentA - originalAngle segmentB\<bar>
                        (map_range (real (depth segmentA)) 0 10 0.01 0.002)
                        (physics p)) \<rparr>)))"

definition constrainGroup :: "key \<times> segment list \<Rightarrow> plant \<Rightarrow> plant" where
  "constrainGroup entry p =
     (case entry of (k, segs) \<Rightarrow>
        if length segs \<ge> 2
        then fold (constrainPair (map_of (particleMap p) k)) (pairs segs) p
        else p)"

definition addAngleConstraints :: "plant \<Rightarrow> plant" where
  "addAngleConstraints p = fold constrainGroup (startPointMap (plant_segments p)) p"

text \<open>
  \<open>growPlant\<close>. The loop materialises the segments with indices from
  \<open>lastSegmentIndex\<close> up to \<open>endIndex - 1\<close>; \<open>endIndex\<close> is at most the number of
  segments, so these are the first \<open>endIndex - lastSegmentIndex\<close> segments after
  dropping \<open>lastSegmentIndex\<close>.
\<close>

definition endIndex :: "plant \<Rightarrow> nat" where
  "endIndex p =
     min (lastSegmentIndex p + max 1 (length (plant_segments p) div 50))
         (length (plant_segments p))"

definition growSegments :: "plant \<Rightarrow> plant" where
  "growSegments p =
     (fold setupSegmentPhysics
        (take (endIndex p - lastSegmentIndex p) (drop (lastSegmentIndex p) (plant_segments p)))
        p)
       \<lparr> lastSegmentIndex := endIndex p \<rparr>"

definition growConstraints :: "plant \<Rightarrow> plant" where
  "growConstraints p =
     (if real (lastSegmentIndex p) \<ge> real (length (plant_segments p)) * 0.8
         \<and> \<not> constraintsAdded p
      then (addAngleConstraints p)\<lparr> constraintsAdded := True \<rparr>
      else p)"

definition growFruits :: "plant \<Rightarrow> plant" where
  "growFruits p =
     (if lastSegmentIndex p \<ge> length (plant_segments p) \<and> length (plant_fruits p) > 0
         \<and> \<not> fruitsAdded p
      then (addFruits p)\<lparr> fruitsAdded := True \<rparr>
      else p)"

definition growPlant :: "plant \<Rightarrow> plant" where
  "growPlant p =
     (if lastSegmentIndex p \<ge> length (plant_segments p)
      then p\<lparr> growingPhase := False \<rparr>
      else growFruits (growConstraints (growSegments p)))"

text \<open>
  \<open>update\<close>. Matter.js's \<open>Engine.update\<close> is outside the repository and is the
  parameter \<open>engine\<close>. No statement of \<open>update\<close>, or of the functions it calls, raises:
  the result is always a plant, and the sum type says so.
\<close>

definition update :: "(physics \<Rightarrow> physics) \<Rightarrow> plant \<Rightarrow> error + plant" where
  "update engine p =
     (let p1 = p\<lparr> growth :=
                 (if growth p < targetGrowth
                  then (if growth p + growthRate > targetGrowth then targetGrowth
                        else growth p + growthRate)
                  else growth p) \<rparr>;
          p2 = (if growingPhase p1 \<and> growth p1 > 0.1
                then (let growthRatio = growth p1 / targetGrowth;
                          targetSegments = \<lfloor>growthRatio * real (totalSegments p1)\<rfloor>
                      in if int (lastSegmentIndex p1) < targetSegments then growPlant p1
                         else p1)
                else p1)
      in Inr (p2\<lparr> physics := engine (physics p2) \<rparr>))"

text \<open>\<open>destroy\<close> clears the physics collections and does nothing else.\<close>

definition destroy :: "plant \<Rightarrow> plant" where
  "destroy p = p\<lparr> physics := clear (physics p) \<rparr>"

text \<open>
  The constructor after its \<open>switch\<close>: from a processed L-system, a stem thickness and
  a scale factor to the plant with its initial root. The colours copied from the
  L-system stay in \<open>plant_lsystem\<close>.
\<close>

definition newPlant :: "real \<Rightarrow> real \<Rightarrow> real \<Rightarrow> lsystem \<Rightarrow> real \<Rightarrow> plant" where
  "newPlant x y st l sc =
     setupInitialRoot
       \<lparr> plant_x = x, plant_y = y, growth = 0, stemThickness = st, plant_lsystem = l,
         plant_segments = segments l, plant_fruits = fruits l, scaleFactor = sc,
         physics = MatterPhysics, particleMap = [], fruitParticles = [],
         lastSegmentIndex = 0, totalSegments = length (segments l), growingPhase = True,
         constraintsAdded = False, fruitsAdded = False \<rparr>"

text \<open>The preset L-systems of lsystem.js.\<close>

definition createSimplePlant :: "rng \<Rightarrow> lsystem \<times> rng" where
  "createSimplePlant =
     LSystem (empty_config\<lparr> cfg_axiom := Some ''F'',
       cfg_rules := Some [CHR ''F'' \<mapsto> Literal (''FF+[+F]-[-F]+[+F]-[-F]'')],
       cfg_angle := Some (pi / 6),
       cfg_iterations := Some (Number (Num 2)),
       cfg_leafColor := Some (Color 100 220 50),
       cfg_stemColor := Some (Color 80 120 40) \<rparr>)"

definition createTree :: "rng \<Rightarrow> lsystem \<times> rng" where
  "createTree =
     LSystem (empty_config\<lparr> cfg_axiom := Some ''F'',
       cfg_rules := Some [CHR ''F'' \<mapsto> Literal (''FF[+F][-F][+F]'')],
       cfg_angle := Some (pi / 7),
       cfg_iterations := Some (Number (Num 3)),
       cfg_leafColor := Some (Color 60 200 40),
       cfg_stemColor := Some (Color 100 70 20) \<rparr>)"

definition createFern :: "rng \<Rightarrow> lsystem \<times> rng" where
  "createFern =
     LSystem (empty_config\<lparr> cfg_axiom := Some ''X'',
       cfg_rules := Some [CHR ''X'' \<mapsto> Literal (''F-[[X]+X]+F[+FX]-X''), CHR ''F'' \<mapsto> Literal (''FF'')],
       cfg_angle := Some (pi / 8),
       cfg_iterations := Some (Number (Num 2)),
       cfg_leafColor := Some (Color 70 200 40),
       cfg_stemColor := Some (Color 70 130 40) \<rparr>)"

definition createBush :: "rng \<Rightarrow> lsystem \<times> rng" where
  "createBush =
     LSystem (empty_config\<lparr> cfg_axiom := Some ''F'',
       cfg_rules := Some [CHR ''F'' \<mapsto> Literal (''FF+[+F][-F]+[+F][-F]'')],
       cfg_angle := Some (pi / 4),
       cfg_iterations := Some (Number (Num 3)),
       cfg_leafColor := Some (Color 120 210 40),
       cfg_stemColor := Some (Color 60 100 30) \<rparr>)"

definition createFlower :: "rng \<Rightarrow> lsystem \<times> rng" where
  "createFlower =
     LSystem (empty_config\<lparr> cfg_axiom := Some ''X'',
       cfg_rules := Some [CHR ''X'' \<mapsto> Literal (''F[+X][-X]FX''), CHR ''F'' \<mapsto> Literal (''FFF'')],
       cfg_angle := Some (pi / 5),
       cfg_iterations := Some (Number (Num 3)),
       cfg_fruitProbability := Some 0.7,
       cfg_fruitColor := Some (Color 255 50 100),
       cfg_leafColor := Some (Color 100 200 50),
       cfg_stemColor := Some (Color 100 140 40),
       cfg_colorVariation := Some True \<rparr>)"

definition createCherryTree :: "rng \<Rightarrow> lsystem \<times> rng" where
  "createCherryTree =
     LSystem (empty_config\<lparr> cfg_axiom := Some ''F'',
       cfg_rules := Some [CHR ''F'' \<mapsto> Literal (''FFF-[-F+F+F*]+[+F-F-F*]'')],
       cfg_angle := Some (pi),
       cfg_iterations := Some (Number (Num 2)),
       cfg_fruitProbability := Some 0.4,
       cfg_fruitColor := Some (Color 220 20 60),
       cfg_leafColor := Some (Color 120 180 40),
       cfg_stemColor := Some (Color 80 40 20) \<rparr>)"

definition createCactus :: "rng \<Rightarrow> lsystem \<times> rng" where
  "createCactus =
     LSystem (empty_config\<lparr> cfg_axiom := Some ''F'',
       cfg_rules := Some [CHR ''F'' \<mapsto> Literal (''[+'' @ [CHR 0x22] @ ''F][-F][+F][-F]FF[+F][-F]FFF'')],
       cfg_angle := Some (pi / 2),
       cfg_iterations := Some (Number (Num 2)),
       cfg_leafColor := Some (Color 50 180 50),
       cfg_stemColor := Some (Color 50 150 50) \<rparr>)"

definition createThickBush :: "rng \<Rightarrow> lsystem \<times> rng" where
  "createThickBush =
     LSystem (empty_config\<lparr> cfg_axiom := Some ''F'',
       cfg_rules := Some [CHR ''F'' \<mapsto> Literal (''[+'' @ [CHR 0x22] @ ''F]['' @ [CHR 0x22] @ ''F][+F]F[+'' @ [CHR 0x22] @ ''F]['' @ [CHR 0x22] @ ''F][+F][-F]F[+F][-F][+F][-F][+F][-F]FF'')],
       cfg_angle := Some (pi / 6),
       cfg_iterations := Some (Number (Num 2)),
       cfg_leafColor := Some (Color 200 250 30),
       cfg_stemColor := Some (Color 70 90 30) \<rparr>)"

definition createBerryBush :: "rng \<Rightarrow> lsystem \<times> rng" where
  "createBerryBush =
     LSystem (empty_config\<lparr> cfg_axiom := Some ''X'',
       cfg_rules := Some [CHR ''X'' \<mapsto> Literal (''F[-X][+X]FXFF*''), CHR ''F'' \<mapsto> Literal (''FF*'')],
       cfg_angle := Some (pi / 4),
       cfg_iterations := Some (Number (Num 3)),
       cfg_fruitProbability := Some 1.0,
       cfg_fruitColor := Some (Color 100 50 200),
       cfg_leafColor := Some (Color 60 180 60),
       cfg_stemColor := Some (Color 80 50 20) \<rparr>)"

definition createCrystalPlant :: "rng \<Rightarrow> lsystem \<times> rng" where
  "createCrystalPlant =
     LSystem (empty_config\<lparr> cfg_axiom := Some ''X'',
       cfg_rules := Some [CHR ''X'' \<mapsto> Literal (''F[-X]*[+X]*FXF[-X]*[+X]''), CHR ''F'' \<mapsto> Literal (''F*F'')],
       cfg_angle := Some (pi / 3),
       cfg_iterations := Some (Number (Num 2)),
       cfg_fruitProbability := Some 0.9,
       cfg_fruitColor := Some (Color 80 200 255),
       cfg_leafColor := Some (Color 150 230 255),
       cfg_stemColor := Some (Color 100 180 220),
       cfg_colorVariation := Some True \<rparr>)"

text \<open>
  \<open>createRandomPlant\<close>: \<open>types[Math.floor(random(types.length))]\<close>, where an index
  outside the array gives \<open>undefined\<close> and the \<open>switch\<close> falls to its default.
\<close>

definition plantTypes :: "string list" where
  "plantTypes = [''simple'', ''tree'', ''fern'', ''bush'', ''flower'',
                 ''cherry'', ''cactus'', ''thickbush'', ''berry'', ''crystal'']"

definition createByName :: "string option \<Rightarrow> rng \<Rightarrow> lsystem \<times> rng" where
  "createByName ty =
     (if ty = Some ''tree'' then createTree
      else if ty = Some ''fern'' then createFern
      else if ty = Some ''bush'' then createBush
      else if ty = Some ''flower'' then createFlower
      else if ty = Some ''cherry'' then createCherryTree
      else if ty = Some ''cactus'' then createCactus
      else if ty = Some ''thickbush'' then createThickBush
      else if ty = Some ''berry'' then createBerryBush
      else if ty = Some ''crystal'' then createCrystalPlant
      else createSimplePlant)"

definition createRandomPlant :: "rng \<Rightarrow> lsystem \<times> rng" where
  "createRandomPlant g =
     (case random g of
        (r, g') \<Rightarrow>
          (let i = \<lfloor>r * real (length plantTypes)\<rfloor>
           in createByName
                (if 0 \<le> i \<and> i < int (length plantTypes) then Some (plantTypes ! nat i)
                 else None) g'))"

text \<open>
  The constructor \<open>ToxicPlant(x, y, type)\<close>: the \<open>switch\<close> on the type chooses the
  L-system and the stem thickness, \<open>process\<close> interprets it, and the scale factor is
  drawn.
\<close>

definition chooseLSystem :: "string \<Rightarrow> rng \<Rightarrow> (lsystem \<times> real) \<times> rng" where
  "chooseLSystem ty g =
     (if ty = ''tree'' then (case createTree g of (l, g') \<Rightarrow> ((l, 5), g'))
      else if ty = ''fern'' then (case createFern g of (l, g') \<Rightarrow> ((l, 3), g'))
      else if ty = ''bush'' then (case createBush g of (l, g') \<Rightarrow> ((l, 4), g'))
      else if ty = ''flower'' then (case createFlower g of (l, g') \<Rightarrow> ((l, 3), g'))
      else if ty = ''cherry'' then (case createCherryTree g of (l, g') \<Rightarrow> ((l, 4), g'))
      else if ty = ''cactus'' then (case createCactus g of (l, g') \<Rightarrow> ((l, 8), g'))
      else if ty = ''thickbush'' then (case createThickBush g of (l, g') \<Rightarrow> ((l, 5), g'))
      else if ty = ''berry'' then (case createBerryBush g of (l, g') \<Rightarrow> ((l, 3), g'))
      else if ty = ''crystal'' then (case createCrystalPlant g of (l, g') \<Rightarrow> ((l, 3), g'))
      else if ty = ''random'' then
        (case createRandomPlant g of
           (l, g') \<Rightarrow> (case random_range 3 5 g' of (st, g'') \<Rightarrow> ((l, st), g'')))
      else (case createSimplePlant g of (l, g') \<Rightarrow> ((l, 4), g')))"

definition ToxicPlant :: "real \<Rightarrow> real \<Rightarrow> string \<Rightarrow> rng \<Rightarrow> error + (plant \<times> rng)" where
  "ToxicPlant x y ty g =
     (case chooseLSystem ty g of
        ((l, st), g1) \<Rightarrow>
          (case process l g1 of
             Inl e \<Rightarrow> Inl e
           | Inr (l', g2) \<Rightarrow>
               (case random_range 0.6 1.8 g2 of
                  (sc, g3) \<Rightarrow> Inr (newPlant x y st l' sc, g3))))"

section \<open>External force: \<open>HandAttractors.applyAttractionToPlants\<close> (handAttractors.js)\<close>

record attractor =
  at_x :: real
  at_y :: real
  strength :: real

record handAttractors =
  attractors :: "attractor list"
  isPinching :: bool
  attractionStrength :: real
  attractionRadius :: real
  maxForce :: real

definition HandAttractors :: handAttractors where
  "HandAttractors =
     \<lparr> attractors = [], isPinching = False, attractionStrength = 0.2,
       attractionRadius = 60, maxForce = 0.1 \<rparr>"

definition setStrength :: "real \<Rightarrow> handAttractors \<Rightarrow> handAttractors" where
  "setStrength v ha = ha\<lparr> attractionStrength := max 0.0001 (min 0.5 v) \<rparr>"

definition setRadius :: "real \<Rightarrow> handAttractors \<Rightarrow> handAttractors" where
  "setRadius v ha = ha\<lparr> attractionRadius := max 10 (min 200 v) \<rparr>"

text \<open>
  The state in which \<open>update\<close> calls \<open>applyAttractionToPlants\<close>: a pinch was seen at
  the given position, and the list of attractors holds that one attractor.
\<close>

definition pinch :: "real \<Rightarrow> real \<Rightarrow> handAttractors \<Rightarrow> handAttractors" where
  "pinch px py ha =
     ha\<lparr> isPinching := True,
         attractors := [\<lparr> at_x = px, at_y = py, strength = attractionStrength ha \<rparr>] \<rparr>"

text \<open>
  The force the loop body hands to \<open>Matter.Body.applyForce\<close> for one body, or \<open>None\<close>
  when the body is skipped (static, or not within the radius). The direction is
  \<open>dx / distance\<close> and \<open>dy / distance\<close>, with no test for a zero distance.
\<close>

definition attractionForce :: "handAttractors \<Rightarrow> attractor \<Rightarrow> body \<Rightarrow> (jsnum \<times> jsnum) option" where
  "attractionForce ha att b =
     (if isStatic b then None
      else
        (let dx = at_x att - pos_x b;
             dy = at_y att - pos_y b;
             distance = sqrt (dx * dx + dy * dy)
         in if distance < attractionRadius ha then
              (let f = strength att * (1 - distance / attractionRadius ha);
                   forceMagnitude = min f (maxForce ha);
                   dirX = js_div dx distance;
                   dirY = js_div dy distance
               in Some (js_mul dirX forceMagnitude, js_mul dirY forceMagnitude))
            else None))"

text \<open>\<open>Matter.Body.applyForce\<close> adds the force to the body's accumulated force.\<close>

definition applyForce :: "jsnum \<times> jsnum \<Rightarrow> body \<Rightarrow> body" where
  "applyForce f b = b\<lparr> force := (js_add (fst (force b)) (fst f), js_add (snd (force b)) (snd f)) \<rparr>"

definition attractBody :: "handAttractors \<Rightarrow> attractor \<Rightarrow> nat \<Rightarrow> body list \<Rightarrow> body list" where
  "attractBody ha att i hp =
     (case attractionForce ha att (hp ! i) of
        None \<Rightarrow> hp
      | Some f \<Rightarrow> hp[i := applyForce f (hp ! i)])"

definition attractPlant :: "handAttractors \<Rightarrow> attractor \<Rightarrow> plant \<Rightarrow> plant" where
  "attractPlant ha att p =
     p\<lparr> physics := (physics p)
           \<lparr> heap := fold (attractBody ha att) (bodies (physics p)) (heap (physics p)) \<rparr> \<rparr>"

definition applyAttractionToPlants :: "handAttractors \<Rightarrow> plant list \<Rightarrow> plant list" where
  "applyAttractionToPlants ha plants =
     (case attractors ha of
        [] \<Rightarrow> plants
      | att # others \<Rightarrow>
          if \<not> isPinching ha then plants else map (attractPlant ha att) plants)"

section \<open>Concrete inputs and the notions the properties are stated with\<close>

text \<open>The grammar of scenario 1: axiom F, the rule F to FF+[+F]-[-F], two iterations.\<close>

definition scenario1 :: config where
  "scenario1 =
     empty_config\<lparr> cfg_axiom := Some ''F'',
       cfg_rules := Some [CHR ''F'' \<mapsto> Literal ''FF+[+F]-[-F]''],
       cfg_iterations := Some (Number (Num 2)) \<rparr>"

text \<open>
  A grammar whose first generation already exceeds the cap: 45 symbols, each rewritten
  to 45 symbols.
\<close>

definition wide_rules :: rules where
  "wide_rules = [CHR ''F'' \<mapsto> Literal ''FFFFFFFFFFFFFFFFFFFFFFFFFFFFFFFFFFFFFFFFFFFFF'']"

definition wide_config :: config where
  "wide_config =
     empty_config\<lparr> cfg_axiom := Some ''FFFFFFFFFFFFFFFFFFFFFFFFFFFFFFFFFFFFFFFFFFFFF'',
       cfg_rules := Some wide_rules, cfg_iterations := Some (Number (Num 4)) \<rparr>"

text \<open>
  An axiom of 3000 symbols with the iteration count -1, which the constructor accepts:
  -1 is truthy and \<open>Math.min(-1, 4)\<close> is -1.
\<close>

definition long_config :: config where
  "long_config =
     empty_config\<lparr> cfg_axiom := Some (replicate 3000 (CHR ''F'')),
       cfg_iterations := Some (Number (Num (- 1))) \<rparr>"


text \<open>Two random generators: every draw is 0, and every draw is 1/11.\<close>

definition zero_rng :: rng where
  "zero_rng = (\<lambda>n. 0)"

definition eleventh_rng :: rng where
  "eleventh_rng = (\<lambda>n. 1 / 11)"

text \<open>
  A production with twelve nested branches before its only segment, and the segment
  the turtle draws for it.
\<close>

definition deep_config :: config where
  "deep_config =
     empty_config\<lparr> cfg_axiom := Some ''[[[[[[[[[[[[F'', cfg_rules := Some Map.empty,
       cfg_iterations := Some (Number (Num 1)) \<rparr>"

definition deep_segment :: segment where
  "deep_segment =
     \<lparr> x1 = 0, y1 = 0, x2 = 0, y2 = - 10, depth = 12,
       thickness = 531441 / 16777216, originalAngle = - (pi / 2),
       color = Color 80 120 40, isRoot = False \<rparr>"

text \<open>A stem with one branch.\<close>

definition branch_config :: config where
  "branch_config =
     empty_config\<lparr> cfg_axiom := Some ''F[F]'', cfg_rules := Some Map.empty,
       cfg_iterations := Some (Number (Num 1)) \<rparr>"

text \<open>A production with the colour symbol, interpreted with colour variation on.\<close>

definition colour_config :: config where
  "colour_config =
     empty_config\<lparr> cfg_axiom := Some ''c'', cfg_colorVariation := Some True \<rparr>"

text \<open>
  The smallest plant: the L-system of the production F after \<open>process\<close>, planted at
  (100, 500) with scale factor 1. Its one segment is a root.
\<close>

definition sprout_config :: config where
  "sprout_config =
     empty_config\<lparr> cfg_axiom := Some ''F'', cfg_rules := Some Map.empty,
       cfg_iterations := Some (Number (Num 1)) \<rparr>"

definition sprout_lsystem :: lsystem where
  "sprout_lsystem =
     \<lparr> axiom = ''F'', rules = Map.empty, angle = pi / 7, iterations = Num 1,
       segments = [\<lparr> x1 = 0, y1 = 0, x2 = 0, y2 = - 10, depth = 0, thickness = 1,
                     originalAngle = - (pi / 2), color = Color 80 120 40, isRoot = True \<rparr>],
       colorVariation = False, fruitProbability = 0, fruitColor = Color 255 50 50,
       leafColor = Color 100 220 50, stemColor = Color 80 120 40, production = ''F'',
       fruits = [] \<rparr>"

definition sprout :: plant where
  "sprout = newPlant 100 500 4 sprout_lsystem 1"

text \<open>The two keys of a segment's endpoints, and the two bodies of a spring.\<close>

definition endpointKeys :: "segment \<Rightarrow> key list" where
  "endpointKeys s = [startKey s, endKey s]"

definition springEnds :: "spring \<Rightarrow> nat list" where
  "springEnds sp = [bodyA sp, bodyB sp]"

text \<open>
  What the turtle keeps true of thicknesses: the current one, the saved ones and
  those of the segments drawn are positive.
\<close>

definition turtle_ok :: "turtle \<Rightarrow> bool" where
  "turtle_ok t =
     (0 < t_thickness t \<and> list_all (\<lambda>sv. 0 < s_thickness sv) (t_stack t)
      \<and> list_all (\<lambda>s. 0 < thickness s) (t_segments t))"

text \<open>The two segments the turtle draws for the production F[F].\<close>

definition stem_segment :: segment where
  "stem_segment =
     \<lparr> x1 = 0, y1 = 0, x2 = 0, y2 = - 10, depth = 0, thickness = 1,
       originalAngle = - (pi / 2), color = Color 80 120 40, isRoot = True \<rparr>"

definition branch_segment :: segment where
  "branch_segment =
     \<lparr> x1 = 0, y1 = - 10, x2 = 0, y2 = - 20, depth = 1, thickness = 3 / 4,
       originalAngle = - (pi / 2), color = Color 80 120 40, isRoot = False \<rparr>"

text \<open>A third segment, continuing the branch of F[F].\<close>

definition twig_segment :: segment where
  "twig_segment =
     \<lparr> x1 = 0, y1 = - 20, x2 = 0, y2 = - 30, depth = 1, thickness = 3 / 4,
       originalAngle = - (pi / 2), color = Color 80 120 40, isRoot = False \<rparr>"

text \<open>
  The condition under which \<open>growPlant\<close> calls \<open>addAngleConstraints\<close>: it does not
  return early, the index reached by this call is at least 80 percent of the number of
  segments, and the flag is not set.
\<close>

definition constraintsFire :: "plant \<Rightarrow> bool" where
  "constraintsFire p =
     (lastSegmentIndex p < length (plant_segments p)
      \<and> real (endIndex p) \<ge> real (length (plant_segments p)) * 0.8
      \<and> \<not> constraintsAdded p)"

text \<open>
  The angle-constraint springs of a plant, as a function of the plant at the moment the
  constraint-addition step starts. \<open>firsts\<close> keeps the first occurrence of every element
  of a list. For two segments with the same start key, \<open>angleSpring\<close> is the spring
  between the bodies of their end points: there is one when the bodies of both end
  points and of the common start point are in the map and neither end body is at the
  position of the common body; its length follows from the law of cosines for the two
  distances and the angle between the headings, its stiffness from the depth of the
  first segment. \<open>angleSprings\<close> lists them: start keys in the order of their first
  occurrence, and for each key the pairs of its segments in the order of the segment
  list.
\<close>

fun firsts :: "'a list \<Rightarrow> 'a list" where
  "firsts [] = []"
| "firsts (x # xs) = x # filter (\<lambda>y. y \<noteq> x) (firsts xs)"

definition angleSpring :: "plant \<Rightarrow> segment \<Rightarrow> segment \<Rightarrow> spring list" where
  "angleSpring p segmentA segmentB =
     (case (map_of (particleMap p) (endKey segmentA),
            map_of (particleMap p) (startKey segmentA),
            map_of (particleMap p) (endKey segmentB)) of
        (Some a, Some b, Some c) \<Rightarrow>
          (let lenAB = dist2 (pos_x (heap (physics p) ! a)) (pos_y (heap (physics p) ! a))
                             (pos_x (heap (physics p) ! b)) (pos_y (heap (physics p) ! b));
               lenBC = dist2 (pos_x (heap (physics p) ! b)) (pos_y (heap (physics p) ! b))
                             (pos_x (heap (physics p) ! c)) (pos_y (heap (physics p) ! c))
           in if lenAB = 0 \<or> lenBC = 0 then []
              else [\<lparr> bodyA = a, bodyB = c,
                      len = sqrt (lenAB * lenAB + lenBC * lenBC - 2 * lenAB * lenBC
                                  * cos \<bar>originalAngle segmentA - originalAngle segmentB\<bar>),
                      stiffness = map_range (real (depth segmentA)) 0 10 0.01 0.002 * 0.05 * 5,
                      damping = 0.03, segmentColor = None, segmentThickness = None,
                      spring_depth = None \<rparr>])
      | _ \<Rightarrow> [])"

definition angleSprings :: "plant \<Rightarrow> spring list" where
  "angleSprings p =
     concat (map (\<lambda>k. concat (map (\<lambda>ab. angleSpring p (fst ab) (snd ab))
                                  (pairs (filter (\<lambda>s. startKey s = k) (plant_segments p)))))
                 (firsts (map startKey (plant_segments p))))"

text \<open>A plant with further springs appended to those it has.\<close>

definition withSprings :: "plant \<Rightarrow> spring list \<Rightarrow> plant" where
  "withSprings p new = p\<lparr> physics := (physics p)\<lparr> springs := springs (physics p) @ new \<rparr> \<rparr>"

text \<open>A segment of a straight stalk, starting at height \<open>h\<close>.\<close>

definition stalk_segment :: "real \<Rightarrow> segment" where
  "stalk_segment h =
     \<lparr> x1 = 0, y1 = - h, x2 = 0, y2 = - h - 10, depth = 0, thickness = 1,
       originalAngle = - (pi / 2), color = Color 80 120 40, isRoot = (h = 0) \<rparr>"

text \<open>
  The notions for the endpoints of springs. \<open>map_ok\<close>: different keys of the map are
  bound to different bodies, all of them in the object store. \<open>springs_distinct\<close>:
  every spring joins two different bodies. \<open>drawn\<close>: the segment has the shape the
  turtle gives it, one step of length 10 along its heading. \<open>no_twins\<close>: no two
  segments of the list have both the same start key and the same end key.
\<close>

definition map_ok :: "plant \<Rightarrow> bool" where
  "map_ok p =
     (distinct (map snd (particleMap p))
      \<and> list_all (\<lambda>e. snd e < length (heap (physics p))) (particleMap p))"

definition springs_distinct :: "plant \<Rightarrow> bool" where
  "springs_distinct p = list_all (\<lambda>sp. bodyA sp \<noteq> bodyB sp) (springs (physics p))"

definition drawn :: "segment \<Rightarrow> bool" where
  "drawn s =
     (x2 s = x1 s + cos (originalAngle s) * 10 \<and> y2 s = y1 s + sin (originalAngle s) * 10)"

definition no_twins :: "segment list \<Rightarrow> bool" where
  "no_twins segs =
     list_all (\<lambda>ab. startKey (fst ab) = startKey (snd ab) \<longrightarrow> endKey (fst ab) \<noteq> endKey (snd ab))
       (pairs segs)"

text \<open>
  A stem with a branch and a continuation that take the same step from the same point:
  the L-system of the production F[F]F after \<open>process\<close>, and its plant.
\<close>

definition twin_config :: config where
  "twin_config =
     empty_config\<lparr> cfg_axiom := Some ''F[F]F'', cfg_rules := Some Map.empty,
       cfg_iterations := Some (Number (Num 1)) \<rparr>"

definition twin_lsystem :: lsystem where
  "twin_lsystem =
     \<lparr> axiom = ''F[F]F'', rules = Map.empty, angle = pi / 7, iterations = Num 1,
       segments = [stem_segment, branch_segment,
                   \<lparr> x1 = 0, y1 = - 10, x2 = 0, y2 = - 20, depth = 0, thickness = 1,
                     originalAngle = - (pi / 2), color = Color 80 120 40, isRoot = False \<rparr>],
       colorVariation = False, fruitProbability = 0, fruitColor = Color 255 50 50,
       leafColor = Color 100 220 50, stemColor = Color 80 120 40, production = ''F[F]F'',
       fruits = [] \<rparr>"

definition twin :: plant where
  "twin = newPlant 100 500 4 twin_lsystem 1"

text \<open>
  A stalk with a side branch and a fruit: the L-system of the production FFF[+F]FF*
  with turning angle \<open>pi / 2\<close> and fruit probability 1 after \<open>process\<close>, when every
  random draw is 1/11 (the turn is then exactly \<open>pi / 2\<close>).
\<close>

definition fork_config :: config where
  "fork_config =
     empty_config\<lparr> cfg_axiom := Some ''FFF[+F]FF*'', cfg_rules := Some Map.empty,
       cfg_angle := Some (pi / 2), cfg_iterations := Some (Number (Num 1)),
       cfg_fruitProbability := Some 1 \<rparr>"

definition side_segment :: segment where
  "side_segment =
     \<lparr> x1 = 0, y1 = - 30, x2 = 10, y2 = - 30, depth = 1, thickness = 3 / 4,
       originalAngle = 0, color = Color 80 120 40, isRoot = False \<rparr>"

definition fork_lsystem :: lsystem where
  "fork_lsystem =
     \<lparr> axiom = ''FFF[+F]FF*'', rules = Map.empty, angle = pi / 2, iterations = Num 1,
       segments = [stalk_segment 0, stalk_segment 10, stalk_segment 20, side_segment,
                   stalk_segment 30, stalk_segment 40],
       colorVariation = False, fruitProbability = 1, fruitColor = Color 255 50 50,
       leafColor = Color 100 220 50, stemColor = Color 80 120 40,
       production = ''FFF[+F]FF*'',
       fruits = [\<lparr> fruit_x = 0, fruit_y = - 50, fruit_size = 62 / 11,
                   fruit_color = Color 255 50 50, fruit_angle = - (pi / 2) \<rparr>] \<rparr>"

definition fork :: plant where
  "fork = newPlant 100 500 4 fork_lsystem 1"

text \<open>
  Two branches that leave the origin almost straight up, one leaning right and one
  leaning left: the L-system of the production [+F][-F] with turning angle 1/10000
  after \<open>process\<close>, when every random draw is 0 (each turn is then 1/12500), and its
  plant. The two end points are 20 sin (1/12500), less than 0.002, apart.
\<close>

definition lean_config :: config where
  "lean_config =
     empty_config\<lparr> cfg_axiom := Some ''[+F][-F]'', cfg_rules := Some Map.empty,
       cfg_angle := Some (1 / 10000), cfg_iterations := Some (Number (Num 1)) \<rparr>"

definition lean_right :: segment where
  "lean_right =
     \<lparr> x1 = 0, y1 = 0, x2 = sin (1 / 12500) * 10, y2 = - (cos (1 / 12500) * 10), depth = 1,
       thickness = 3 / 4, originalAngle = 1 / 12500 - pi / 2, color = Color 80 120 40,
       isRoot = False \<rparr>"

definition lean_left :: segment where
  "lean_left =
     \<lparr> x1 = 0, y1 = 0, x2 = - (sin (1 / 12500) * 10), y2 = - (cos (1 / 12500) * 10), depth = 1,
       thickness = 3 / 4, originalAngle = - (pi / 2) - 1 / 12500, color = Color 80 120 40,
       isRoot = False \<rparr>"

definition lean_lsystem :: lsystem where
  "lean_lsystem =
     \<lparr> axiom = ''[+F][-F]'', rules = Map.empty, angle = 1 / 10000, iterations = Num 1,
       segments = [lean_right, lean_left],
       colorVariation = False, fruitProbability = 0, fruitColor = Color 255 50 50,
       leafColor = Color 100 220 50, stemColor = Color 80 120 40,
       production = ''[+F][-F]'', fruits = [] \<rparr>"

definition lean :: plant where
  "lean = newPlant 100 500 4 lean_lsystem 1"

section \<open>Properties of the grammar engine\<close>

lemma rewrite_symbol_literal:
  "rs c = Some (Literal s) \<Longrightarrow> s \<noteq> [] \<Longrightarrow> rewrite_symbol rs c g = (s, g)"
  by (simp add: rewrite_symbol_def)

lemma rewrite_symbol_none: "rs c = None \<Longrightarrow> rewrite_symbol rs c g = ([c], g)"
  by (simp add: rewrite_symbol_def)

lemma generate_loop_bounded:
  "0 < n \<or> length result \<le> 2000 \<Longrightarrow> length (fst (generate_loop rs n result g)) \<le> 2000"
proof (induction n arbitrary: result g)
  case 0
  then show ?case by simp
next
  case (Suc n)
  obtain nextGen g' where ng: "next_generation rs result [] g = (nextGen, g')"
    by (cases "next_generation rs result [] g")
  show ?case
  proof (cases "length nextGen > 2000")
    case True
    with ng show ?thesis by simp
  next
    case False
    with Suc.IH [of nextGen g'] ng show ?thesis by simp
  qed
qed

lemma loop_runs_clamped: "loop_runs (js_min v 4) \<le> 4"
  by (cases v) (simp_all add: min_def ceiling_le_iff)

lemma loop_runs_default:
  "v = None \<or> (v = Some (Number (Num r)) \<and> 0 \<le> r)
   \<Longrightarrow> 0 < loop_runs (js_min (toNumber (or_number v 2)) 4)"
  by (auto simp add: or_number_def min_def)

text \<open>
  C2 (as the code has it). The rule's right-hand side FF+[+F]-[-F] has 12 symbols, 4 of
  them F. One iteration gives 12 symbols and two iterations give 4 * 12 + 8 = 56, for
  every random generator, and the generator is returned untouched: no draw is taken.
\<close>

theorem scenario1_production:
  "production (fst (LSystem scenario1 g)) =
     ''FF+[+F]-[-F]FF+[+F]-[-F]+[+FF+[+F]-[-F]]-[-FF+[+F]-[-F]]''
   \<and> length (production (fst (LSystem scenario1 g))) = 56
   \<and> length (production (fst (LSystem (scenario1\<lparr>cfg_iterations := Some (Number (Num 1))\<rparr>) g))) = 12
   \<and> snd (LSystem scenario1 g) = g"
  by (simp add: LSystem_def scenario1_def empty_config_def generate_def or_string_def
      or_value_def or_real_def or_number_def rewrite_symbol_def eval_nat_numeral)

text \<open>
  C2 as the specification states it (length exactly 11) fails: with the generator that
  always draws 0 the production has 56 symbols.
\<close>

theorem scenario1_length_not_11:
  "length (production (fst (LSystem scenario1 (\<lambda>n. 0)))) \<noteq> 11"
  by (simp add: LSystem_def scenario1_def empty_config_def generate_def or_string_def
      or_value_def or_real_def or_number_def rewrite_symbol_def eval_nat_numeral)

text \<open>
  C5 (as the code has it). \<open>generate\<close> is a total function, so it returns for every
  configuration and every generator. The constructor clamps the iteration count from
  above only: the loop body runs at most 4 times, and at least once when the count is
  absent or a number that is not negative (0 counts as absent and becomes 2). The
  length is checked inside the loop body. So the stored production, which is what the
  loop returns from the axiom, has at most 2000 symbols when the body runs at least
  once or the axiom itself has at most 2000 symbols; and whenever a generation is
  longer than 2000 the loop returns its first 2000 symbols at once, whatever number
  \<open>n\<close> of iterations was still to run.
\<close>

theorem generate_within_cap:
  "(0 < loop_runs (iterations (fst (LSystem c g))) \<or> length (axiom (fst (LSystem c g))) \<le> 2000
      \<longrightarrow> length (production (fst (LSystem c g))) \<le> 2000)
   \<and> (cfg_iterations c = None \<or> (cfg_iterations c = Some (Number (Num r)) \<and> 0 \<le> r)
      \<longrightarrow> 0 < loop_runs (iterations (fst (LSystem c g))))
   \<and> loop_runs (iterations (fst (LSystem c g))) \<le> 4
   \<and> production (fst (LSystem c g)) =
       fst (generate_loop (rules (fst (LSystem c g))) (loop_runs (iterations (fst (LSystem c g))))
              (axiom (fst (LSystem c g))) g)
   \<and> (2000 < length (fst (next_generation rs result [] g')) \<longrightarrow>
        generate_loop rs (Suc n) result g' =
          (take 2000 (fst (next_generation rs result [] g')),
           snd (next_generation rs result [] g')))"
proof -
  have stored: "production (fst (LSystem c g)) =
       fst (generate_loop (rules (fst (LSystem c g))) (loop_runs (iterations (fst (LSystem c g))))
              (axiom (fst (LSystem c g))) g)"
    by (simp add: LSystem_def generate_def split: prod.splits)
  have bounded: "0 < loop_runs (iterations (fst (LSystem c g)))
      \<or> length (axiom (fst (LSystem c g))) \<le> 2000
      \<longrightarrow> length (production (fst (LSystem c g))) \<le> 2000"
    unfolding stored using generate_loop_bounded by blast
  have its: "iterations (fst (LSystem c g)) = js_min (toNumber (or_number (cfg_iterations c) 2)) 4"
    by (simp add: LSystem_def generate_def split: prod.splits)
  have once: "cfg_iterations c = None \<or> (cfg_iterations c = Some (Number (Num r)) \<and> 0 \<le> r)
      \<longrightarrow> 0 < loop_runs (iterations (fst (LSystem c g)))"
    unfolding its using loop_runs_default by blast
  have clamp: "loop_runs (iterations (fst (LSystem c g))) \<le> 4"
    unfolding its by (rule loop_runs_clamped)
  have cut: "2000 < length (fst (next_generation rs result [] g')) \<longrightarrow>
      generate_loop rs (Suc n) result g' =
        (take 2000 (fst (next_generation rs result [] g')),
         snd (next_generation rs result [] g'))"
    by (simp split: prod.splits)
  from bounded once clamp stored cut show ?thesis by blast
qed

lemma wide_next_generation:
  "length (fst (next_generation wide_rules
      ''FFFFFFFFFFFFFFFFFFFFFFFFFFFFFFFFFFFFFFFFFFFFF'' [] g)) = 2025"
  by (simp add: wide_rules_def rewrite_symbol_def)

lemma wide_count: "cfg_iterations wide_config = Some (Number (Num 4))"
  by (simp add: wide_config_def empty_config_def)

theorem generate_within_cap_witness:
  "0 < loop_runs (iterations (fst (LSystem wide_config (\<lambda>n. 0))))
   \<and> length (production (fst (LSystem wide_config (\<lambda>n. 0)))) \<le> 2000
   \<and> 2000 < length (fst (next_generation wide_rules
        ''FFFFFFFFFFFFFFFFFFFFFFFFFFFFFFFFFFFFFFFFFFFFF'' [] (\<lambda>n. 0)))
   \<and> length (fst (generate_loop wide_rules (Suc 3)
        ''FFFFFFFFFFFFFFFFFFFFFFFFFFFFFFFFFFFFFFFFFFFFF'' (\<lambda>n. 0))) = 2000"
proof -
  let ?g = "\<lambda>n::nat. 0::real"
  let ?ax = "''FFFFFFFFFFFFFFFFFFFFFFFFFFFFFFFFFFFFFFFFFFFFF''"
  have h: "2000 < length (fst (next_generation wide_rules ?ax [] ?g))"
    by (simp only: wide_next_generation)
  have k: "(0::real) \<le> 4"
    by simp
  note t = generate_within_cap [of wide_config ?g 4 wide_rules ?ax ?g 3]
  from t wide_count k have r: "0 < loop_runs (iterations (fst (LSystem wide_config ?g)))"
    by blast
  from t r have a: "length (production (fst (LSystem wide_config ?g))) \<le> 2000"
    by blast
  from t h have b: "generate_loop wide_rules (Suc 3) ?ax ?g =
      (take 2000 (fst (next_generation wide_rules ?ax [] ?g)),
       snd (next_generation wide_rules ?ax [] ?g))"
    by blast
  have c: "length (fst (generate_loop wide_rules (Suc 3) ?ax ?g)) = 2000"
    using h by (simp only: b fst_conv length_take)
  from r a h c show ?thesis by blast
qed

text \<open>
  C5 as the specification states it (every configuration whose count is at most the
  clamp maximum gives at most 2000 symbols) fails. With the count -1 the loop body
  never runs, the length is never checked, and the axiom of 3000 symbols is stored
  uncut.
\<close>

theorem negative_count_stores_long_axiom:
  "cfg_iterations long_config = Some (Number (Num (- 1)))
   \<and> iterations (fst (LSystem long_config (\<lambda>n. 0))) = Num (- 1)
   \<and> production (fst (LSystem long_config (\<lambda>n. 0))) = replicate 3000 (CHR ''F'')
   \<and> length (production (fst (LSystem long_config (\<lambda>n. 0)))) = 3000"
  by (simp add: LSystem_def long_config_def empty_config_def generate_def or_string_def
      or_value_def or_real_def or_number_def)

section \<open>Physics graph builder: frame lemmas\<close>

lemma createParticle_fst: "fst (createParticle px py m f ph) = length (heap ph)"
  by (simp add: createParticle_def Let_def)

lemma createParticle_heap_length:
  "length (heap (snd (createParticle px py m f ph))) = Suc (length (heap ph))"
  by (simp add: createParticle_def fixParticle_def Let_def)

lemma createParticle_old:
  "i < length (heap ph) \<Longrightarrow> heap (snd (createParticle px py m f ph)) ! i = heap ph ! i"
  by (simp add: createParticle_def fixParticle_def Let_def nth_append)

lemma createParticle_new_static:
  "isStatic (heap (snd (createParticle px py m f ph)) ! length (heap ph)) = f"
  by (simp add: createParticle_def fixParticle_def Let_def)

lemma createParticle_springs: "springs (snd (createParticle px py m f ph)) = springs ph"
  by (simp add: createParticle_def fixParticle_def Let_def)

lemma createSpring_heap: "heap (snd (createSpring a b st rl ph)) = heap ph"
  by (simp add: createSpring_def Let_def split: option.splits)

lemma createSpring_Some:
  "\<exists>sp. createSpring (Some a) (Some b) st rl ph
          = (Some (length (springs ph)), ph\<lparr> springs := springs ph @ [sp] \<rparr>)
        \<and> bodyA sp = a \<and> bodyB sp = b"
  by (fastforce simp: createSpring_def Let_def)

lemma annotate_heap: "heap (annotate s sp ph) = heap ph"
  by (simp add: annotate_def split: option.splits)

lemma annotate_last:
  "\<exists>sp'. annotate s (Some (length xs)) (ph\<lparr> springs := xs @ [sp] \<rparr>)
            = ph\<lparr> springs := xs @ [sp'] \<rparr> \<and> bodyA sp' = bodyA sp \<and> bodyB sp' = bodyB sp"
  by (fastforce simp: annotate_def)

text \<open>The two halves of \<open>setupSegmentPhysics\<close>.\<close>

lemma startParticle_present:
  "map_of (particleMap p) (startKey s) = Some b \<Longrightarrow> startParticle s p = (b, p)"
  by (simp add: startParticle_def)

lemma endParticle_present:
  "map_of (particleMap p) (endKey s) = Some b \<Longrightarrow> endParticle s p = (b, p)"
  by (simp add: endParticle_def)

lemma startParticle_absent:
  assumes "map_of (particleMap p) (startKey s) = None"
  shows "fst (startParticle s p) = length (heap (physics p))"
    and "particleMap (snd (startParticle s p)) = particleMap p @ [(startKey s, length (heap (physics p)))]"
    and "length (heap (physics (snd (startParticle s p)))) = Suc (length (heap (physics p)))"
    and "isStatic (heap (physics (snd (startParticle s p))) ! length (heap (physics p))) = isRoot s"
    and "springs (physics (snd (startParticle s p))) = springs (physics p)"
  using assms
  by (simp_all add: startParticle_def split: prod.splits)
     (simp_all add: createParticle_def fixParticle_def Let_def)

lemma endParticle_absent:
  assumes "map_of (particleMap p) (endKey s) = None"
  shows "fst (endParticle s p) = length (heap (physics p))"
    and "particleMap (snd (endParticle s p)) = particleMap p @ [(endKey s, length (heap (physics p)))]"
    and "length (heap (physics (snd (endParticle s p)))) = Suc (length (heap (physics p)))"
    and "\<not> isStatic (heap (physics (snd (endParticle s p))) ! length (heap (physics p)))"
    and "springs (physics (snd (endParticle s p))) = springs (physics p)"
  using assms
  by (simp_all add: endParticle_def split: prod.splits)
     (simp_all add: createParticle_def fixParticle_def Let_def)

lemma startParticle_old:
  "i < length (heap (physics p)) \<Longrightarrow>
     heap (physics (snd (startParticle s p))) ! i = heap (physics p) ! i"
  by (simp add: startParticle_def createParticle_def fixParticle_def Let_def nth_append
      split: option.splits)

lemma endParticle_old:
  "i < length (heap (physics p)) \<Longrightarrow>
     heap (physics (snd (endParticle s p))) ! i = heap (physics p) ! i"
  by (simp add: endParticle_def createParticle_def fixParticle_def Let_def nth_append
      split: option.splits)

lemma startParticle_heap_mono:
  "length (heap (physics p)) \<le> length (heap (physics (snd (startParticle s p))))"
  by (simp add: startParticle_def createParticle_def fixParticle_def Let_def
      split: option.splits)

lemma endParticle_heap_mono:
  "length (heap (physics p)) \<le> length (heap (physics (snd (endParticle s p))))"
  by (simp add: endParticle_def createParticle_def fixParticle_def Let_def
      split: option.splits)

lemma startParticle_map_mono:
  "map_of (particleMap p) k = Some b \<Longrightarrow>
     map_of (particleMap (snd (startParticle s p))) k = Some b"
  by (simp add: startParticle_def createParticle_def Let_def map_add_def
      split: option.splits)

lemma endParticle_map_mono:
  "map_of (particleMap p) k = Some b \<Longrightarrow>
     map_of (particleMap (snd (endParticle s p))) k = Some b"
  by (simp add: endParticle_def createParticle_def Let_def map_add_def
      split: option.splits)

lemma startParticle_lookup:
  "map_of (particleMap (snd (startParticle s p))) (startKey s) = Some (fst (startParticle s p))"
  by (simp add: startParticle_def createParticle_def Let_def map_add_def
      split: option.splits)

lemma endParticle_lookup:
  "map_of (particleMap (snd (endParticle s p))) (endKey s) = Some (fst (endParticle s p))"
  by (simp add: endParticle_def createParticle_def Let_def map_add_def
      split: option.splits)

text \<open>\<open>setupSegmentPhysics\<close> in terms of its halves.\<close>

lemma setupSegmentPhysics_shape:
  "\<exists>sp. setupSegmentPhysics s p =
      (snd (endParticle s (snd (startParticle s p))))
        \<lparr> physics := (physics (snd (endParticle s (snd (startParticle s p)))))
             \<lparr> springs := springs (physics p) @ [sp] \<rparr> \<rparr>
     \<and> bodyA sp = fst (startParticle s p)
     \<and> bodyB sp = fst (endParticle s (snd (startParticle s p)))"
proof -
  obtain a p1 where sa: "startParticle s p = (a, p1)" by (cases "startParticle s p")
  obtain b p2 where sb: "endParticle s p1 = (b, p2)" by (cases "endParticle s p1")
  have sp1: "springs (physics p1) = springs (physics p)"
    using sa by (auto simp: startParticle_def createParticle_def fixParticle_def Let_def
        split: option.splits)
  have sp2: "springs (physics p2) = springs (physics p1)"
    using sb by (auto simp: endParticle_def createParticle_def fixParticle_def Let_def
        split: option.splits)
  show ?thesis
    by (fastforce simp: setupSegmentPhysics_def sa sb createSpring_def Let_def annotate_def sp1 sp2)
qed


lemma setup_particleMap:
  "particleMap (setupSegmentPhysics s p) = particleMap (snd (endParticle s (snd (startParticle s p))))"
  using setupSegmentPhysics_shape [of s p] by auto

lemma setup_heap:
  "heap (physics (setupSegmentPhysics s p)) = heap (physics (snd (endParticle s (snd (startParticle s p)))))"
  using setupSegmentPhysics_shape [of s p] by auto

lemma setup_bodies:
  "bodies (physics (setupSegmentPhysics s p)) = bodies (physics (snd (endParticle s (snd (startParticle s p)))))"
  using setupSegmentPhysics_shape [of s p] by auto

lemma setup_springs:
  "\<exists>sp. springs (physics (setupSegmentPhysics s p)) = springs (physics p) @ [sp]
     \<and> bodyA sp = fst (startParticle s p)
     \<and> bodyB sp = fst (endParticle s (snd (startParticle s p)))"
  using setupSegmentPhysics_shape [of s p] by auto

lemma setup_map_mono:
  "map_of (particleMap p) k = Some b \<Longrightarrow> map_of (particleMap (setupSegmentPhysics s p)) k = Some b"
  by (simp add: setup_particleMap startParticle_map_mono endParticle_map_mono)

lemma setup_old_bodies:
  assumes "i < length (heap (physics p))"
  shows "heap (physics (setupSegmentPhysics s p)) ! i = heap (physics p) ! i"
proof -
  let ?p1 = "snd (startParticle s p)"
  from assms startParticle_heap_mono [of p s] have "i < length (heap (physics ?p1))"
    by simp
  then have "heap (physics (snd (endParticle s ?p1))) ! i = heap (physics ?p1) ! i"
    by (rule endParticle_old)
  with startParticle_old [OF assms] show ?thesis
    by (simp add: setup_heap)
qed

lemma setup_lookup_start:
  "map_of (particleMap (setupSegmentPhysics s p)) (startKey s) = Some (fst (startParticle s p))"
  by (simp add: setup_particleMap startParticle_lookup endParticle_map_mono)

lemma setup_lookup_end:
  "map_of (particleMap (setupSegmentPhysics s p)) (endKey s)
     = Some (fst (endParticle s (snd (startParticle s p))))"
  by (simp add: setup_particleMap endParticle_lookup)

lemma fold_setup_map_mono:
  "map_of (particleMap p) k = Some b \<Longrightarrow>
     map_of (particleMap (fold setupSegmentPhysics segs p)) k = Some b"
  by (induction segs arbitrary: p) (simp_all add: setup_map_mono)

lemma fold_setup_springs:
  "\<exists>new. springs (physics (fold setupSegmentPhysics segs p)) = springs (physics p) @ new
      \<and> length new = length segs"
proof (induction segs arbitrary: p)
  case Nil
  then show ?case by simp
next
  case (Cons s segs)
  obtain sp where sp: "springs (physics (setupSegmentPhysics s p)) = springs (physics p) @ [sp]"
    using setup_springs [of s p] by blast
  obtain new where new: "springs (physics (fold setupSegmentPhysics segs (setupSegmentPhysics s p)))
      = springs (physics (setupSegmentPhysics s p)) @ new" "length new = length segs"
    using Cons.IH [of "setupSegmentPhysics s p"] by blast
  have "springs (physics (fold setupSegmentPhysics (s # segs) p)) = springs (physics p) @ (sp # new)"
    by (simp add: new sp)
  with new(2) show ?case by (metis length_Cons)
qed

text \<open>
  C1 (as the code has it). Materialising a segment creates a particle only for a key
  that is not yet in the map. A particle created for the start point is fixed exactly
  when the segment is a root; a particle created for the end point is free, also for
  a root segment; the bodies that existed before are left as they were, and the map
  keeps its entries, so a reused particle keeps the flag it was created with.
\<close>

theorem fixed_iff_new_root_start:
  "(map_of (particleMap p) (startKey s) = None \<longrightarrow>
      map_of (particleMap (setupSegmentPhysics s p)) (startKey s) = Some (length (heap (physics p)))
      \<and> isStatic (heap (physics (setupSegmentPhysics s p)) ! length (heap (physics p))) = isRoot s)
   \<and> (map_of (particleMap p) (endKey s) = None \<and> endKey s \<noteq> startKey s \<longrightarrow>
        (\<exists>b. map_of (particleMap (setupSegmentPhysics s p)) (endKey s) = Some b
           \<and> length (heap (physics p)) \<le> b
           \<and> \<not> isStatic (heap (physics (setupSegmentPhysics s p)) ! b)))
   \<and> (\<forall>i<length (heap (physics p)).
        heap (physics (setupSegmentPhysics s p)) ! i = heap (physics p) ! i)
   \<and> (\<forall>k b. map_of (particleMap p) k = Some b \<longrightarrow>
        map_of (particleMap (setupSegmentPhysics s p)) k = Some b)"
proof -
  let ?p1 = "snd (startParticle s p)"
  let ?p2 = "snd (endParticle s ?p1)"
  let ?n = "length (heap (physics p))"
  have start: "map_of (particleMap (setupSegmentPhysics s p)) (startKey s) = Some ?n
      \<and> isStatic (heap (physics (setupSegmentPhysics s p)) ! ?n) = isRoot s"
    if absent: "map_of (particleMap p) (startKey s) = None"
  proof -
    have l: "map_of (particleMap (setupSegmentPhysics s p)) (startKey s) = Some ?n"
      using setup_lookup_start [of s p] startParticle_absent(1) [OF absent] by simp
    have "?n < length (heap (physics ?p1))"
      using startParticle_absent(3) [OF absent] by simp
    then have "heap (physics ?p2) ! ?n = heap (physics ?p1) ! ?n"
      by (rule endParticle_old)
    with startParticle_absent(4) [OF absent] l show ?thesis
      by (simp add: setup_heap)
  qed
  have "end": "\<exists>b. map_of (particleMap (setupSegmentPhysics s p)) (endKey s) = Some b
        \<and> ?n \<le> b \<and> \<not> isStatic (heap (physics (setupSegmentPhysics s p)) ! b)"
    if absent: "map_of (particleMap p) (endKey s) = None" and ne: "endKey s \<noteq> startKey s"
  proof -
    have absent1: "map_of (particleMap ?p1) (endKey s) = None"
      using absent ne
      by (simp add: startParticle_def createParticle_def Let_def map_add_def
          split: option.splits)
    let ?b = "length (heap (physics ?p1))"
    have "map_of (particleMap (setupSegmentPhysics s p)) (endKey s) = Some ?b"
      using setup_lookup_end [of s p] endParticle_absent(1) [OF absent1] by simp
    moreover have "?n \<le> ?b" by (rule startParticle_heap_mono)
    moreover have "\<not> isStatic (heap (physics (setupSegmentPhysics s p)) ! ?b)"
      using endParticle_absent(4) [OF absent1] by (simp add: setup_heap)
    ultimately show ?thesis by blast
  qed
  from start "end" setup_old_bodies setup_map_mono show ?thesis by blast
qed

section \<open>Evaluating the model on concrete inputs\<close>

lemmas cfg_ev = LSystem_def empty_config_def generate_def or_string_def or_value_def
  or_real_def or_number_def rewrite_symbol_def eval_nat_numeral

lemmas turtle_ev = process_def turtle_start_def turtle_step_def random_def random_range_def

lemmas physics_ev = MatterPhysics_def createParticle_def fixParticle_def createSpring_def
  createAngleConstraint_def clear_def springDamping_def dist2_def

lemmas plant_ev = newPlant_def setupInitialRoot_def setupSegmentPhysics_def startParticle_def
  endParticle_def annotate_def startKey_def endKey_def point_key_def toFixed2_def
  startMass_def endMass_def thicknessFactor_def map_range_def Let_def

lemmas hand_ev = HandAttractors_def pinch_def applyAttractionToPlants_def attractPlant_def
  attractBody_def attractionForce_def applyForce_def js_div_def

lemmas grow_ev = growPlant_def growSegments_def growConstraints_def growFruits_def endIndex_def
  addAngleConstraints_def startPointMap_def constrainGroup_def constrainPair_def
  addFruits_def addFruit_def

text \<open>The smallest plant is what the pipeline builds for the production F.\<close>

lemma sprout_processed:
  "process (fst (LSystem sprout_config zero_rng)) zero_rng = Inr (sprout_lsystem, zero_rng)"
  by (simp add: cfg_ev turtle_ev sprout_config_def sprout_lsystem_def)

text \<open>The plant with a side branch and a fruit is what the pipeline builds for FFF[+F]FF*.\<close>

lemma fork_processed:
  "process (fst (LSystem fork_config eleventh_rng)) eleventh_rng
     = Inr (fork_lsystem, eleventh_rng)"
  by (simp add: cfg_ev turtle_ev fork_config_def fork_lsystem_def stalk_segment_def
      side_segment_def eleventh_rng_def)

text \<open>
  C1 as the specification states it fails: the one segment of the smallest plant is a
  root, and the particle of its end point, body 1, is not fixed.
\<close>

theorem root_end_point_is_free:
  "isRoot (plant_segments sprout ! 0)
   \<and> map_of (particleMap sprout) (endKey (plant_segments sprout ! 0)) = Some 1
   \<and> \<not> isStatic (heap (physics sprout) ! 1)"
  by (simp add: sprout_def sprout_lsystem_def plant_ev physics_ev)

theorem fixed_iff_new_root_start_witness:
  "map_of (particleMap (sprout\<lparr> particleMap := [], physics := MatterPhysics \<rparr>))
      (startKey stem_segment) = None
   \<and> map_of (particleMap (sprout\<lparr> particleMap := [], physics := MatterPhysics \<rparr>))
      (endKey stem_segment) = None
   \<and> endKey stem_segment \<noteq> startKey stem_segment
   \<and> isStatic (heap (physics (setupSegmentPhysics stem_segment
        (sprout\<lparr> particleMap := [], physics := MatterPhysics \<rparr>))) ! 0)
   \<and> \<not> isStatic (heap (physics (setupSegmentPhysics stem_segment
        (sprout\<lparr> particleMap := [], physics := MatterPhysics \<rparr>))) ! 1)
   \<and> (0::nat) < length (heap (physics sprout))
   \<and> heap (physics (setupSegmentPhysics twig_segment sprout)) ! 0 = heap (physics sprout) ! 0
   \<and> map_of (particleMap sprout) (startKey stem_segment) = Some 0
   \<and> map_of (particleMap (setupSegmentPhysics twig_segment sprout)) (startKey stem_segment)
       = Some 0"
proof -
  let ?p = "sprout\<lparr> particleMap := [], physics := MatterPhysics \<rparr>"
  have a: "map_of (particleMap ?p) (startKey stem_segment) = None" by simp
  have b: "map_of (particleMap ?p) (endKey stem_segment) = None" by simp
  have c: "endKey stem_segment \<noteq> startKey stem_segment"
    by (simp add: stem_segment_def endKey_def startKey_def point_key_def toFixed2_def)
  have r: "isRoot stem_segment" by (simp add: stem_segment_def)
  have n: "length (heap (physics ?p)) = 0" by (simp add: MatterPhysics_def)
  note t = fixed_iff_new_root_start [of ?p stem_segment]
  from t a r n have s0: "isStatic (heap (physics (setupSegmentPhysics stem_segment ?p)) ! 0)"
    by simp
  from t b c obtain k where k: "map_of (particleMap (setupSegmentPhysics stem_segment ?p))
      (endKey stem_segment) = Some k"
      "\<not> isStatic (heap (physics (setupSegmentPhysics stem_segment ?p)) ! k)"
    by blast
  have "map_of (particleMap (setupSegmentPhysics stem_segment ?p)) (endKey stem_segment) = Some 1"
    by (simp add: stem_segment_def plant_ev physics_ev)
  with k have s1: "\<not> isStatic (heap (physics (setupSegmentPhysics stem_segment ?p)) ! 1)"
    by simp
  have h: "(0::nat) < length (heap (physics sprout))"
    by (simp add: sprout_def sprout_lsystem_def plant_ev physics_ev)
  have m: "map_of (particleMap sprout) (startKey stem_segment) = Some 0"
    by (simp add: sprout_def sprout_lsystem_def stem_segment_def plant_ev physics_ev)
  note u = fixed_iff_new_root_start [of sprout twig_segment]
  from u h have old: "heap (physics (setupSegmentPhysics twig_segment sprout)) ! 0
      = heap (physics sprout) ! 0"
    by blast
  from u m have kept: "map_of (particleMap (setupSegmentPhysics twig_segment sprout))
      (startKey stem_segment) = Some 0"
    by blast
  from a b c s0 s1 h old m kept show ?thesis by blast
qed

section \<open>Plant lifecycle\<close>

text \<open>
  C3 as the specification states it fails: updating the smallest plant after
  \<open>destroy\<close> returns a plant, not an error.
\<close>

theorem update_after_destroy_returns:
  "\<not> isl (update id (destroy sprout))"
  by (simp add: update_def Let_def)

text \<open>
  C3 (as the code has it). \<open>destroy\<close> only clears the collections of the physics
  backend: the plant records nothing about having been destroyed and keeps its map
  of particles. A later \<open>update\<close> returns normally, for every engine, and advances
  the growth by the growth rate up to the target, as it does for a live plant.
\<close>

theorem update_after_destroy:
  "destroy p = p\<lparr> physics := clear (physics p) \<rparr>
   \<and> springs (physics (destroy p)) = [] \<and> bodies (physics (destroy p)) = []
   \<and> particleMap (destroy p) = particleMap p
   \<and> (\<exists>q. update engine (destroy p) = Inr q
         \<and> growth q = (if growth p < targetGrowth
                        then min targetGrowth (growth p + growthRate) else growth p))"
proof -
  have d: "growth (destroy p) = growth p" by (simp add: destroy_def)
  have gp: "growth (growPlant r) = growth r" for r
  proof -
    have s: "growth (setupSegmentPhysics s q) = growth q" for s q
      using setupSegmentPhysics_shape [of s q]
      by (auto simp: startParticle_def endParticle_def split: option.splits prod.splits)
    have f: "growth (fold setupSegmentPhysics segs q) = growth q" for segs q
      by (induction segs arbitrary: q) (simp_all add: s)
    have cp: "growth (constrainPair c ab q) = growth q" for c ab q
      by (simp add: constrainPair_def split: prod.splits option.splits)
    have fcp: "growth (fold (constrainPair c) xs q) = growth q" for c xs q
      by (induction xs arbitrary: q) (simp_all add: cp)
    have cg: "growth (constrainGroup e q) = growth q" for e q
      by (simp add: constrainGroup_def fcp split: prod.splits)
    have fcg: "growth (fold constrainGroup xs q) = growth q" for xs q
      by (induction xs arbitrary: q) (simp_all add: cg)
    have af: "growth (addFruit fr q) = growth q" for fr q
      by (simp add: addFruit_def Let_def split: option.splits prod.splits)
    have faf: "growth (fold addFruit xs q) = growth q" for xs q
      by (induction xs arbitrary: q) (simp_all add: af)
    show ?thesis
      by (simp add: growPlant_def growFruits_def growConstraints_def growSegments_def
          addFruits_def addAngleConstraints_def f fcg faf)
  qed
  have u: "\<exists>q. update engine (destroy p) = Inr q
         \<and> growth q = (if growth p < targetGrowth
                        then min targetGrowth (growth p + growthRate) else growth p)"
    by (simp add: update_def Let_def gp d min_def)
  show ?thesis
    using u by (simp add: destroy_def clear_def)
qed

section \<open>Turtle interpreter\<close>

text \<open>
  The pop symbol on an empty stack changes nothing and raises nothing, and the rest
  of the string is interpreted as if the symbol were not there.
\<close>

lemma pop_on_empty_stack:
  "t_stack t = [] \<Longrightarrow>
     turtle_step l (CHR '']'') t = Inr t
     \<and> turtle_run l (CHR '']'' # rest) t = turtle_run l rest t"
  by (simp add: turtle_step_def)

text \<open>The only symbol at which a step raises is the colour symbol with colour variation on.\<close>

lemma turtle_step_raises_only_at_colour:
  "turtle_step l c t = Inl e \<longleftrightarrow> (c = CHR ''c'' \<and> colorVariation l \<and> e = TypeError)"
  by (cases e) (auto simp: turtle_step_def Let_def split: prod.splits list.splits)

text \<open>
  C10: the interpretation of the production c with colour variation on. The call
  \<open>color(...)\<close> in the case of the colour symbol reaches the local variable \<open>color\<close>,
  and \<open>process\<close> raises a TypeError: the interpreter is not total over all strings.
\<close>

theorem colour_symbol_raises:
  "production (fst (LSystem colour_config zero_rng)) = ''c''
   \<and> colorVariation (fst (LSystem colour_config zero_rng))
   \<and> process (fst (LSystem colour_config zero_rng)) zero_rng = Inl TypeError"
  by (simp add: cfg_ev turtle_ev colour_config_def default_rules_def)

text \<open>The turtle keeps thicknesses positive.\<close>

lemma turtle_step_ok: "turtle_ok t \<Longrightarrow> turtle_step l c t = Inr t' \<Longrightarrow> turtle_ok t'"
  by (auto simp: turtle_ok_def turtle_step_def Let_def split: if_splits prod.splits list.splits)

lemma turtle_run_ok: "turtle_ok t \<Longrightarrow> turtle_run l cs t = Inr t' \<Longrightarrow> turtle_ok t'"
proof (induction cs arbitrary: t)
  case Nil
  then show ?case by simp
next
  case (Cons c cs)
  then show ?case
    by (auto split: sum.splits dest: turtle_step_ok)
qed

lemma process_thickness_pos:
  assumes a: "process_segments l g = Inr segs" and b: "s \<in> set segs"
  shows "0 < thickness s"
proof -
  have ok0: "turtle_ok (turtle_start l g)"
    by (simp add: turtle_ok_def turtle_start_def)
  from a obtain t where r: "turtle_run l (production l) (turtle_start l g) = Inr t"
    and segs: "segs = t_segments t"
    by (auto simp: process_segments_def process_def split: sum.splits)
  from turtle_run_ok [OF ok0 r] have "list_all (\<lambda>s. 0 < thickness s) segs"
    by (simp add: turtle_ok_def segs)
  with b show ?thesis by (simp add: list_all_iff)
qed

section \<open>Masses of joints and tips\<close>

lemma mass_order:
  assumes pos: "0 < thickness s"
  shows "endMass s < startMass s \<longleftrightarrow> depth s \<le> 11"
proof -
  from pos have tf: "thicknessFactor s = thickness s" by (simp add: thicknessFactor_def)
  have d: "startMass s - endMass s = thickness s * ((15 - 1.35 * real (depth s)) / 10)"
    by (simp add: startMass_def endMass_def map_range_def tf algebra_simps)
  have "endMass s < startMass s \<longleftrightarrow> 0 < startMass s - endMass s" by simp
  also have "\<dots> \<longleftrightarrow> 0 < (15 - 1.35 * real (depth s)) / 10"
    using pos by (simp only: d zero_less_mult_iff) auto
  also have "\<dots> \<longleftrightarrow> depth s \<le> 11"
    by (simp add: field_simps) linarith
  finally show ?thesis .
qed

text \<open>
  C8 (as the code has it). For every segment the turtle draws, the mass of a new end
  point is below the mass of a new start point exactly when the depth is at most 11:
  the difference is the thickness times (1.5 - 0.135 * depth).
\<close>

theorem tip_lighter_than_joint:
  "process_segments l g = Inr segs \<Longrightarrow> s \<in> set segs \<Longrightarrow>
     (endMass s < startMass s \<longleftrightarrow> depth s \<le> 11)"
  using mass_order process_thickness_pos by blast

theorem tip_lighter_than_joint_witness:
  "process_segments (fst (LSystem branch_config zero_rng)) zero_rng
      = Inr [stem_segment, branch_segment]
   \<and> branch_segment \<in> set [stem_segment, branch_segment]
   \<and> depth branch_segment \<le> 11
   \<and> endMass branch_segment < startMass branch_segment"
proof -
  have a: "process_segments (fst (LSystem branch_config zero_rng)) zero_rng
      = Inr [stem_segment, branch_segment]"
    by (simp add: process_segments_def cfg_ev turtle_ev branch_config_def
        stem_segment_def branch_segment_def)
  have b: "branch_segment \<in> set [stem_segment, branch_segment]" by simp
  have c: "depth branch_segment \<le> 11" by (simp add: branch_segment_def)
  from tip_lighter_than_joint [OF a b] c
  have "endMass branch_segment < startMass branch_segment" by simp
  with a b c show ?thesis by blast
qed

text \<open>
  C8 as the specification states it (for every depth a segment can carry) fails: the
  turtle gives the segment behind twelve open brackets the depth 12, where both
  masses are negative and the tip's is the larger.
\<close>

theorem deep_tip_not_lighter:
  "process_segments (fst (LSystem deep_config zero_rng)) zero_rng = Inr [deep_segment]
   \<and> \<not> endMass deep_segment < startMass deep_segment"
  by (simp add: process_segments_def cfg_ev turtle_ev deep_config_def deep_segment_def
      zero_rng_def startMass_def endMass_def map_range_def thicknessFactor_def)

section \<open>External force\<close>

text \<open>
  C4: a pinch exactly at the position (100, 490) of body 1 of the smallest plant, a
  free body, with the strength 0.2 and the radius 60 of the constructor. The distance
  is 0, both direction components are 0 / 0, and the force handed to the body is
  (NaN, NaN): not a force of a magnitude between 0 and the maximum.
\<close>

theorem force_at_exact_position_is_NaN:
  "\<not> isStatic (heap (physics sprout) ! 1)
   \<and> pos_x (heap (physics sprout) ! 1) = 100 \<and> pos_y (heap (physics sprout) ! 1) = 490
   \<and> bodies (physics sprout) = [0, 1]
   \<and> force (heap (physics (hd (applyAttractionToPlants (pinch 100 490 HandAttractors)
        [sprout]))) ! 1) = (NaN, NaN)"
  by (simp add: sprout_def sprout_lsystem_def plant_ev physics_ev hand_ev)

text \<open>The parts of C4 that hold: no force beyond the radius, and a capped one within.\<close>

lemma no_force_outside_radius:
  "attractionRadius ha \<le> dist2 (pos_x b) (pos_y b) (at_x att) (at_y att) \<Longrightarrow>
     attractionForce ha att b = None"
  by (simp add: attractionForce_def dist2_def Let_def)

lemma force_capped_within_radius:
  assumes free: "\<not> isStatic b"
    and d: "d = dist2 (pos_x b) (pos_y b) (at_x att) (at_y att)"
    and pos: "0 < d" and inside: "d < attractionRadius ha"
    and st: "0 < strength att" and mx: "0 < maxForce ha"
  shows "\<exists>fx fy. attractionForce ha att b = Some (Num fx, Num fy)
      \<and> sqrt (fx * fx + fy * fy) = min (strength att * (1 - d / attractionRadius ha)) (maxForce ha)
      \<and> 0 < sqrt (fx * fx + fy * fy) \<and> sqrt (fx * fx + fy * fy) \<le> maxForce ha"
proof -
  let ?dx = "at_x att - pos_x b" and ?dy = "at_y att - pos_y b"
  let ?m = "min (strength att * (1 - d / attractionRadius ha)) (maxForce ha)"
  have dd: "d = sqrt (?dx * ?dx + ?dy * ?dy)" by (simp add: d dist2_def)
  have sq: "?dx * ?dx + ?dy * ?dy = d * d"
    using pos by (simp add: dd)
  have "0 < 1 - d / attractionRadius ha" using pos inside by simp
  with st have "0 < strength att * (1 - d / attractionRadius ha)" by simp
  with mx have mpos: "0 < ?m" by simp
  let ?fx = "?dx / d * ?m" and ?fy = "?dy / d * ?m"
  have f: "attractionForce ha att b = Some (Num ?fx, Num ?fy)"
    using free pos inside by (simp add: attractionForce_def Let_def js_div_def dd [symmetric])
  have alg: "(u / d * m) * (u / d * m) + (v / d * m) * (v / d * m)
      = (u * u + v * v) / (d * d) * (m * m)" for u v m :: real
    by (cases "d = 0") (simp_all add: field_simps)
  have "?fx * ?fx + ?fy * ?fy = (?dx * ?dx + ?dy * ?dy) / (d * d) * (?m * ?m)"
    by (rule alg)
  also have "\<dots> = ?m * ?m" using pos by (simp add: sq)
  finally have mag: "sqrt (?fx * ?fx + ?fy * ?fy) = ?m"
    using mpos by simp
  have le: "?m \<le> maxForce ha" by simp
  have "attractionForce ha att b = Some (Num ?fx, Num ?fy)
      \<and> sqrt (?fx * ?fx + ?fy * ?fy) = ?m
      \<and> 0 < sqrt (?fx * ?fx + ?fy * ?fy) \<and> sqrt (?fx * ?fx + ?fy * ?fy) \<le> maxForce ha"
    using f mpos le by (simp only: mag)
  then show ?thesis by blast
qed


section \<open>Deduplication of point masses\<close>

text \<open>Equal \<open>toFixed(2)\<close> strings mean a distance below one hundredth.\<close>

lemma toFixed2_eq_close:
  assumes "toFixed2 u = toFixed2 v"
  shows "\<bar>u - v\<bar> < 1 / 100"
proof -
  from assms have sgn: "(u < 0) = (v < 0)"
    and n: "nat \<lfloor>\<bar>u\<bar> * 100 + 1 / 2\<rfloor> = nat \<lfloor>\<bar>v\<bar> * 100 + 1 / 2\<rfloor>"
    by (simp_all add: toFixed2_def)
  have "0 \<le> \<lfloor>\<bar>u\<bar> * 100 + 1 / 2\<rfloor>" "0 \<le> \<lfloor>\<bar>v\<bar> * 100 + 1 / 2\<rfloor>"
    by simp_all
  with n have fl: "\<lfloor>\<bar>u\<bar> * 100 + 1 / 2\<rfloor> = \<lfloor>\<bar>v\<bar> * 100 + 1 / 2\<rfloor>"
    by linarith
  have "\<bar>(\<bar>u\<bar> * 100 + 1 / 2) - (\<bar>v\<bar> * 100 + 1 / 2)\<bar> < 1"
    using fl by linarith
  then have "\<bar>\<bar>u\<bar> - \<bar>v\<bar>\<bar> < 1 / 100" by linarith
  with sgn show ?thesis by linarith
qed


lemma setup_ends:
  "\<exists>sp. springs (physics (setupSegmentPhysics s p)) = springs (physics p) @ [sp]
     \<and> map_of (particleMap (setupSegmentPhysics s p)) (startKey s) = Some (bodyA sp)
     \<and> map_of (particleMap (setupSegmentPhysics s p)) (endKey s) = Some (bodyB sp)"
  using setup_springs [of s p] setup_lookup_start [of s p] setup_lookup_end [of s p]
  by auto

lemma endpoint_lookup:
  assumes "map_of m (startKey s) = Some (bodyA sp)" and "map_of m (endKey s) = Some (bodyB sp)"
    and "i < 2"
  shows "map_of m (endpointKeys s ! i) = Some (springEnds sp ! i)"
proof -
  from \<open>i < 2\<close> have "i = 0 \<or> i = 1" by auto
  with assms(1,2) show ?thesis
    by (auto simp: endpointKeys_def springEnds_def)
qed

text \<open>
  Keys are the cells of the rounding: two points with the same key are less than one
  hundredth apart in each coordinate. The sign is part of the \<open>toFixed(2)\<close> string, so a
  small negative coordinate (\<open>-0.00\<close>) and a small positive one (\<open>0.00\<close>) have
  different keys, as have two close coordinates on either side of a rounding boundary.
\<close>

lemma same_key_close:
  assumes "point_key ux uy = point_key vx vy"
  shows "\<bar>ux - vx\<bar> < 1 / 100 \<and> \<bar>uy - vy\<bar> < 1 / 100"
proof -
  from assms have "toFixed2 ux = toFixed2 vx" "toFixed2 uy = toFixed2 vy"
    by (simp_all add: point_key_def)
  then show ?thesis using toFixed2_eq_close by blast
qed

lemma key_cells:
  "toFixed2 (- (1 / 1000)) = (True, 0)" "toFixed2 (1 / 1000) = (False, 0)"
  "toFixed2 (4 / 1000) = (False, 0)" "toFixed2 (6 / 1000) = (False, 1)"
  by (simp_all add: toFixed2_def)

text \<open>
  C7 (as the code has it). Two endpoints are merged when their coordinates give the
  same key, that is the same pair of \<open>toFixed(2)\<close> strings: the same sign and the same
  nearest hundredth in each coordinate. Materialising a segment leaves its two keys in
  the map, bound to the two bodies of the spring it creates; an entry of the map is
  never changed by later materialisations; an endpoint whose key is in the map takes
  the particle found there and creates nothing. Hence, for a segment \<open>s1\<close> and a
  segment \<open>s2\<close> materialised later (after any segments \<open>mid\<close>), an endpoint of \<open>s1\<close>
  and an endpoint of \<open>s2\<close> with the same key are the same body in the two springs.
\<close>

theorem shared_endpoint_shares_particle:
  "(\<exists>sp. springs (physics (setupSegmentPhysics s p)) = springs (physics p) @ [sp]
       \<and> map (map_of (particleMap (setupSegmentPhysics s p))) (endpointKeys s)
           = map Some (springEnds sp))
   \<and> (map_of (particleMap p) k = Some b \<longrightarrow>
        map_of (particleMap (fold setupSegmentPhysics segs p)) k = Some b)
   \<and> (map_of (particleMap p) (startKey s) = Some a \<longrightarrow> startParticle s p = (a, p))
   \<and> (map_of (particleMap p) (endKey s) = Some c \<longrightarrow> endParticle s p = (c, p))
   \<and> (i < 2 \<and> j < 2 \<and> endpointKeys s1 ! i = endpointKeys s2 ! j \<longrightarrow>
        springEnds (springs (physics (setupSegmentPhysics s2
            (fold setupSegmentPhysics mid (setupSegmentPhysics s1 p))))
          ! length (springs (physics p))) ! i
        = springEnds (springs (physics (setupSegmentPhysics s2
            (fold setupSegmentPhysics mid (setupSegmentPhysics s1 p))))
          ! (length (springs (physics p)) + 1 + length mid)) ! j)"
proof -
  have one: "\<exists>sp. springs (physics (setupSegmentPhysics s p)) = springs (physics p) @ [sp]
       \<and> map (map_of (particleMap (setupSegmentPhysics s p))) (endpointKeys s)
           = map Some (springEnds sp)"
    using setup_ends [of s p] by (auto simp: endpointKeys_def springEnds_def)
  have two: "springEnds (springs (physics (setupSegmentPhysics s2
            (fold setupSegmentPhysics mid (setupSegmentPhysics s1 p))))
          ! length (springs (physics p))) ! i
        = springEnds (springs (physics (setupSegmentPhysics s2
            (fold setupSegmentPhysics mid (setupSegmentPhysics s1 p))))
          ! (length (springs (physics p)) + 1 + length mid)) ! j"
    if i: "i < 2" and j: "j < 2" and eq: "endpointKeys s1 ! i = endpointKeys s2 ! j"
  proof -
    let ?p1 = "setupSegmentPhysics s1 p"
    let ?p2 = "fold setupSegmentPhysics mid ?p1"
    let ?p3 = "setupSegmentPhysics s2 ?p2"
    let ?n = "length (springs (physics p))"
    obtain sp1 where sp1: "springs (physics ?p1) = springs (physics p) @ [sp1]"
      "map_of (particleMap ?p1) (startKey s1) = Some (bodyA sp1)"
      "map_of (particleMap ?p1) (endKey s1) = Some (bodyB sp1)"
      using setup_ends [of s1 p] by blast
    obtain new where new: "springs (physics ?p2) = springs (physics ?p1) @ new"
      "length new = length mid"
      using fold_setup_springs [of mid ?p1] by blast
    obtain sp2 where sp2: "springs (physics ?p3) = springs (physics ?p2) @ [sp2]"
      "map_of (particleMap ?p3) (startKey s2) = Some (bodyA sp2)"
      "map_of (particleMap ?p3) (endKey s2) = Some (bodyB sp2)"
      using setup_ends [of s2 ?p2] by blast
    have all: "springs (physics ?p3) = springs (physics p) @ sp1 # new @ [sp2]"
      by (simp add: sp1 new sp2)
    have at1: "springs (physics ?p3) ! ?n = sp1"
      by (simp add: all)
    have at2: "springs (physics ?p3) ! (?n + 1 + length mid) = sp2"
      by (simp add: all nth_append new(2) [symmetric])
    have keep: "map_of (particleMap ?p1) k' = Some b' \<Longrightarrow> map_of (particleMap ?p3) k' = Some b'"
      for k' b'
      by (simp add: fold_setup_map_mono setup_map_mono)
    have l1: "map_of (particleMap ?p3) (endpointKeys s1 ! i) = Some (springEnds sp1 ! i)"
      using endpoint_lookup [OF keep [OF sp1(2)] keep [OF sp1(3)] i] .
    have l2: "map_of (particleMap ?p3) (endpointKeys s2 ! j) = Some (springEnds sp2 ! j)"
      using endpoint_lookup [OF sp2(2) sp2(3) j] .
    from l1 l2 eq have "springEnds sp1 ! i = springEnds sp2 ! j" by simp
    then show ?thesis by (simp only: at1 at2)
  qed
  from one two fold_setup_map_mono startParticle_present endParticle_present
  show ?thesis by blast
qed

theorem shared_endpoint_shares_particle_witness:
  "map_of (particleMap sprout) (startKey stem_segment) = Some 0
   \<and> map_of (particleMap sprout) (endKey stem_segment) = Some 1
   \<and> map_of (particleMap (fold setupSegmentPhysics [branch_segment] sprout))
        (startKey stem_segment) = Some 0
   \<and> startParticle stem_segment sprout = (0, sprout)
   \<and> endParticle stem_segment sprout = (1, sprout)
   \<and> (1::nat) < 2 \<and> (0::nat) < 2
   \<and> endpointKeys branch_segment ! 1 = endpointKeys twig_segment ! 0
   \<and> springEnds (springs (physics (setupSegmentPhysics twig_segment
          (fold setupSegmentPhysics [] (setupSegmentPhysics branch_segment sprout))))
        ! length (springs (physics sprout))) ! 1
      = springEnds (springs (physics (setupSegmentPhysics twig_segment
          (fold setupSegmentPhysics [] (setupSegmentPhysics branch_segment sprout))))
        ! (length (springs (physics sprout)) + 1 + length ([] :: segment list))) ! 0"
proof -
  have a: "map_of (particleMap sprout) (startKey stem_segment) = Some 0"
    by (simp add: sprout_def sprout_lsystem_def stem_segment_def plant_ev physics_ev)
  have c: "map_of (particleMap sprout) (endKey stem_segment) = Some 1"
    by (simp add: sprout_def sprout_lsystem_def stem_segment_def plant_ev physics_ev)
  have e: "endpointKeys branch_segment ! 1 = endpointKeys twig_segment ! 0"
    by (simp add: endpointKeys_def branch_segment_def twig_segment_def startKey_def endKey_def)
  note t = shared_endpoint_shares_particle [of stem_segment sprout "startKey stem_segment" 0
      "[branch_segment]" 0 1 1 0 branch_segment twig_segment "[]"]
  from t a c e show ?thesis by simp
qed

text \<open>The two leaning branches are what the pipeline builds for [+F][-F].\<close>

lemma lean_turns:
  "cos (1 / 12500 - pi / 2) = sin (1 / 12500)" "sin (1 / 12500 - pi / 2) = - cos (1 / 12500)"
  "cos (- (pi / 2) - 1 / 12500) = - sin (1 / 12500)"
  "sin (- (pi / 2) - 1 / 12500) = - cos (1 / 12500)"
  by (simp_all add: cos_diff sin_diff)

lemma lean_processed:
  "process (fst (LSystem lean_config zero_rng)) zero_rng = Inr (lean_lsystem, zero_rng)"
  by (simp add: cfg_ev turtle_ev lean_config_def lean_lsystem_def lean_right_def lean_left_def
      zero_rng_def lean_turns Let_def)

lemma lean_sin: "0 < sin (1 / 12500 :: real)" "sin (1 / 12500 :: real) \<le> 1 / 12500"
proof -
  have "(1 / 12500 :: real) < pi" using pi_ge_two by linarith
  then show "0 < sin (1 / 12500 :: real)" by (simp add: sin_gt_zero)
  show "sin (1 / 12500 :: real) \<le> 1 / 12500" by (rule sin_x_le_x) simp
qed

lemma lean_cos: "9995 / 10000 < cos (1 / 12500 :: real)"
proof -
  define s where "s = sin (1 / 12500 :: real)"
  define c where "c = cos (1 / 12500 :: real)"
  have "(1 / 12500 :: real) < pi / 2" using pi_ge_two by linarith
  then have c0: "0 < c" unfolding c_def by (simp add: cos_gt_zero)
  have c1: "c \<le> 1" unfolding c_def by simp
  have s0: "0 < s" "s \<le> 1 / 12500" unfolding s_def using lean_sin by simp_all
  have "s * s \<le> (1 / 12500) * (1 / 12500)"
    using s0 by (intro mult_mono) simp_all
  moreover have "s * s + c * c = 1"
    unfolding s_def c_def using sin_cos_squared_add [of "1 / 12500 :: real"]
    by (simp add: power2_eq_square)
  moreover have "c * c \<le> c" using c0 c1 by (simp add: mult_left_le)
  ultimately have "9995 / 10000 < c" by simp
  then show ?thesis unfolding c_def .
qed

text \<open>
  The strings of the two end points: \<open>0.00,-10.00\<close> for the branch leaning right and
  \<open>-0.00,-10.00\<close> for the branch leaning left.
\<close>

lemma lean_keys:
  "toFixed2 (sin (1 / 12500) * 10) = (False, 0)"
  "toFixed2 (- (sin (1 / 12500) * 10)) = (True, 0)"
  "toFixed2 (- (cos (1 / 12500) * 10)) = (True, 1000)"
proof -
  have a: "\<lfloor>sin (1 / 12500 :: real) * 10 * 100 + 1 / 2\<rfloor> = 0"
    using lean_sin by (intro floor_unique) simp_all
  have b1: "1000 \<le> cos (1 / 12500 :: real) * 10 * 100 + 1 / 2"
    using lean_cos by linarith
  have b2: "cos (1 / 12500 :: real) * 10 * 100 + 1 / 2 < 1001"
    using cos_le_one [of "1 / 12500 :: real"] by linarith
  have b: "\<lfloor>cos (1 / 12500 :: real) * 10 * 100 + 1 / 2\<rfloor> = 1000"
    using b1 b2 by (intro floor_unique) simp_all
  show "toFixed2 (sin (1 / 12500) * 10) = (False, 0)"
    using lean_sin a by (simp add: toFixed2_def abs_if not_less)
  show "toFixed2 (- (sin (1 / 12500) * 10)) = (True, 0)"
    using lean_sin a by (simp add: toFixed2_def abs_if)
  show "toFixed2 (- (cos (1 / 12500) * 10)) = (True, 1000)"
    using lean_cos b by (simp add: toFixed2_def abs_if)
qed

lemma toFixed2_zero: "toFixed2 0 = (False, 0)"
  by (simp add: toFixed2_def)

text \<open>
  C7 as the specification states it (end points within rounding tolerance of each
  other are one point mass) fails. The end points of the two leaning branches are less
  than one hundredth apart in \<open>x\<close> and equal in \<open>y\<close>, and both round to \<open>x = 0.00\<close>; their
  keys differ in the sign, and the two growth steps that materialise the branches
  create two bodies for them: the springs join body 0 to body 1 and body 0 to body 2.
\<close>

theorem close_endpoints_two_particles:
  "process (fst (LSystem lean_config zero_rng)) zero_rng = Inr (lean_lsystem, zero_rng)
   \<and> plant_segments lean = [lean_right, lean_left]
   \<and> \<bar>x2 lean_right - x2 lean_left\<bar> < 1 / 100
   \<and> y2 lean_right = y2 lean_left
   \<and> snd (toFixed2 (x2 lean_right)) = snd (toFixed2 (x2 lean_left))
   \<and> endKey lean_right \<noteq> endKey lean_left
   \<and> map springEnds (take 2 (springs (physics (growPlant (growPlant lean)))))
       = [[0, 1], [0, 2]]
   \<and> map_of (particleMap (growPlant (growPlant lean))) (endKey lean_right) = Some 1
   \<and> map_of (particleMap (growPlant (growPlant lean))) (endKey lean_left) = Some 2"
proof -
  have segs: "plant_segments lean = [lean_right, lean_left]"
    by (simp add: lean_def lean_lsystem_def lean_right_def lean_left_def newPlant_def
        setupInitialRoot_def Let_def)
  have near: "\<bar>x2 lean_right - x2 lean_left\<bar> < 1 / 100" "y2 lean_right = y2 lean_left"
    using lean_sin by (simp_all add: lean_right_def lean_left_def)
  have keys: "snd (toFixed2 (x2 lean_right)) = snd (toFixed2 (x2 lean_left))"
      "endKey lean_right \<noteq> endKey lean_left"
    by (simp_all add: lean_right_def lean_left_def endKey_def point_key_def lean_keys)
  have grown: "map springEnds (take 2 (springs (physics (growPlant (growPlant lean)))))
       = [[0, 1], [0, 2]]
     \<and> map_of (particleMap (growPlant (growPlant lean))) (endKey lean_right) = Some 1
     \<and> map_of (particleMap (growPlant (growPlant lean))) (endKey lean_left) = Some 2"
    by (simp add: lean_def lean_lsystem_def lean_right_def lean_left_def
        newPlant_def setupInitialRoot_def setupSegmentPhysics_def startParticle_def
        endParticle_def annotate_def startKey_def endKey_def point_key_def lean_keys
        toFixed2_zero startMass_def endMass_def thicknessFactor_def map_range_def Let_def
        physics_ev grow_ev springEnds_def)
  from lean_processed segs near keys grown show ?thesis by blast
qed


section \<open>Growth scheduler\<close>

text \<open>What the steps of the growth leave untouched.\<close>

lemma self_frame1: "\<exists>ph. p = p\<lparr> physics := ph \<rparr>"
  by (rule exI [of _ "physics p"]) simp

lemma self_frame2: "\<exists>ph fp. p = p\<lparr> physics := ph, fruitParticles := fp \<rparr>"
  by (rule exI [of _ "physics p"], rule exI [of _ "fruitParticles p"]) simp

lemma self_frame3:
  "\<exists>ph fp fa. p = p\<lparr> physics := ph, fruitParticles := fp, fruitsAdded := fa \<rparr>"
  by (rule exI [of _ "physics p"], rule exI [of _ "fruitParticles p"],
      rule exI [of _ "fruitsAdded p"]) simp

lemma setup_frame:
  "\<exists>ph pm. setupSegmentPhysics s p = p\<lparr> physics := ph, particleMap := pm \<rparr>"
proof -
  have a: "\<exists>ph pm. snd (startParticle s q) = q\<lparr> physics := ph, particleMap := pm \<rparr>" for q
    by (cases q) (auto simp: startParticle_def split: option.splits prod.splits)
  have b: "\<exists>ph pm. snd (endParticle s q) = q\<lparr> physics := ph, particleMap := pm \<rparr>" for q
    by (cases q) (auto simp: endParticle_def split: option.splits prod.splits)
  define S where "S = snd (startParticle s p)"
  define E where "E = snd (endParticle s S)"
  obtain ph1 pm1 where 1: "S = p\<lparr> physics := ph1, particleMap := pm1 \<rparr>"
    using a unfolding S_def by blast
  obtain ph2 pm2 where 2: "E = S\<lparr> physics := ph2, particleMap := pm2 \<rparr>"
    using b unfolding E_def by blast
  obtain sp where 3: "setupSegmentPhysics s p =
      E\<lparr> physics := (physics E)\<lparr> springs := springs (physics p) @ [sp] \<rparr> \<rparr>"
    using setupSegmentPhysics_shape [of s p] unfolding E_def S_def by blast
  have "setupSegmentPhysics s p =
      p\<lparr> physics := ph2\<lparr> springs := springs (physics p) @ [sp] \<rparr>, particleMap := pm2 \<rparr>"
    by (simp add: 3 2 1)
  then show ?thesis by blast
qed

lemma fold_setup_frame:
  "\<exists>ph pm. fold setupSegmentPhysics segs p = p\<lparr> physics := ph, particleMap := pm \<rparr>"
proof (induction segs arbitrary: p)
  case Nil
  have "p = p\<lparr> physics := physics p, particleMap := particleMap p \<rparr>" by simp
  then show ?case by (metis fold_simps(1))
next
  case (Cons s segs)
  obtain ph pm where 1: "setupSegmentPhysics s p = p\<lparr> physics := ph, particleMap := pm \<rparr>"
    using setup_frame by blast
  obtain ph' pm' where 2: "fold setupSegmentPhysics segs (setupSegmentPhysics s p)
      = (setupSegmentPhysics s p)\<lparr> physics := ph', particleMap := pm' \<rparr>"
    using Cons.IH by blast
  have "fold setupSegmentPhysics (s # segs) p = p\<lparr> physics := ph', particleMap := pm' \<rparr>"
    by (simp add: 2) (simp add: 1)
  then show ?case by blast
qed

lemma growSegments_frame:
  "\<exists>ph pm. growSegments p
     = p\<lparr> physics := ph, particleMap := pm, lastSegmentIndex := endIndex p \<rparr>"
proof -
  obtain ph pm where "fold setupSegmentPhysics
      (take (endIndex p - lastSegmentIndex p) (drop (lastSegmentIndex p) (plant_segments p))) p
      = p\<lparr> physics := ph, particleMap := pm \<rparr>"
    using fold_setup_frame by blast
  then have "growSegments p
     = p\<lparr> physics := ph, particleMap := pm, lastSegmentIndex := endIndex p \<rparr>"
    by (simp add: growSegments_def)
  then show ?thesis by blast
qed

lemma constrainPair_frame: "\<exists>ph. constrainPair c ab p = p\<lparr> physics := ph \<rparr>"
  using self_frame1 [of p]
  by (auto simp: constrainPair_def split: prod.splits option.splits)

lemma fold_constrainPair_frame: "\<exists>ph. fold (constrainPair c) xs p = p\<lparr> physics := ph \<rparr>"
proof (induction xs arbitrary: p)
  case Nil
  have "p = p\<lparr> physics := physics p \<rparr>" by simp
  then show ?case by (metis fold_simps(1))
next
  case (Cons x xs)
  obtain ph where 1: "constrainPair c x p = p\<lparr> physics := ph \<rparr>"
    using constrainPair_frame by blast
  obtain ph' where 2: "fold (constrainPair c) xs (constrainPair c x p)
      = (constrainPair c x p)\<lparr> physics := ph' \<rparr>"
    using Cons.IH by blast
  have "fold (constrainPair c) (x # xs) p = p\<lparr> physics := ph' \<rparr>"
    by (simp add: 2) (simp add: 1)
  then show ?case by blast
qed

lemma constrainGroup_frame: "\<exists>ph. constrainGroup e p = p\<lparr> physics := ph \<rparr>"
proof (cases e)
  case (Pair k segs)
  show ?thesis
  proof (cases "2 \<le> length segs")
    case True
    then show ?thesis
      using fold_constrainPair_frame by (simp add: constrainGroup_def Pair)
  next
    case False
    have "p = p\<lparr> physics := physics p \<rparr>" by simp
    then have "\<exists>ph. p = p\<lparr> physics := ph \<rparr>" by (rule exI)
    with False show ?thesis by (simp add: constrainGroup_def Pair)
  qed
qed

lemma addAngleConstraints_frame: "\<exists>ph. addAngleConstraints p = p\<lparr> physics := ph \<rparr>"
proof -
  have "\<exists>ph. fold constrainGroup xs p = p\<lparr> physics := ph \<rparr>" for xs
  proof (induction xs arbitrary: p)
    case Nil
    have "p = p\<lparr> physics := physics p \<rparr>" by simp
    then show ?case by (metis fold_simps(1))
  next
    case (Cons x xs)
    obtain ph where 1: "constrainGroup x p = p\<lparr> physics := ph \<rparr>"
      using constrainGroup_frame by blast
    obtain ph' where 2: "fold constrainGroup xs (constrainGroup x p)
        = (constrainGroup x p)\<lparr> physics := ph' \<rparr>"
      using Cons.IH by blast
    have "fold constrainGroup (x # xs) p = p\<lparr> physics := ph' \<rparr>"
      by (simp add: 2) (simp add: 1)
    then show ?case by blast
  qed
  then show ?thesis by (simp add: addAngleConstraints_def)
qed

lemma addFruit_frame:
  "\<exists>ph fp. addFruit fr p = p\<lparr> physics := ph, fruitParticles := fp \<rparr>"
  using self_frame2 [of p]
  by (auto simp: addFruit_def Let_def split: option.splits prod.splits)

lemma addFruits_frame:
  "\<exists>ph fp. addFruits p = p\<lparr> physics := ph, fruitParticles := fp \<rparr>"
proof -
  have "\<exists>ph fp. fold addFruit xs p = p\<lparr> physics := ph, fruitParticles := fp \<rparr>" for xs
  proof (induction xs arbitrary: p)
    case Nil
    have "p = p\<lparr> physics := physics p, fruitParticles := fruitParticles p \<rparr>" by simp
    then show ?case by (metis fold_simps(1))
  next
    case (Cons x xs)
    obtain ph fp where 1: "addFruit x p = p\<lparr> physics := ph, fruitParticles := fp \<rparr>"
      using addFruit_frame by blast
    obtain ph' fp' where 2: "fold addFruit xs (addFruit x p)
        = (addFruit x p)\<lparr> physics := ph', fruitParticles := fp' \<rparr>"
      using Cons.IH by blast
    have "fold addFruit (x # xs) p = p\<lparr> physics := ph', fruitParticles := fp' \<rparr>"
      by (simp add: 2) (simp add: 1)
    then show ?case by blast
  qed
  then show ?thesis by (simp add: addFruits_def)
qed

lemma growFruits_frame:
  "\<exists>ph fp fa. growFruits p = p\<lparr> physics := ph, fruitParticles := fp, fruitsAdded := fa \<rparr>"
proof (cases "lastSegmentIndex p \<ge> length (plant_segments p) \<and> length (plant_fruits p) > 0
    \<and> \<not> fruitsAdded p")
  case True
  obtain ph fp where "addFruits p = p\<lparr> physics := ph, fruitParticles := fp \<rparr>"
    using addFruits_frame by blast
  with True have "growFruits p = p\<lparr> physics := ph, fruitParticles := fp, fruitsAdded := True \<rparr>"
    by (simp add: growFruits_def)
  then show ?thesis by blast
next
  case False
  then have "growFruits p = p" by (auto simp: growFruits_def)
  with self_frame3 [of p] show ?thesis by simp
qed

text \<open>\<open>growPlant\<close>, with the test for the angle constraints made explicit.\<close>

lemma growPlant_cases:
  "growPlant p =
     (if lastSegmentIndex p \<ge> length (plant_segments p) then p\<lparr> growingPhase := False \<rparr>
      else if constraintsFire p
        then growFruits ((addAngleConstraints (growSegments p))\<lparr> constraintsAdded := True \<rparr>)
        else growFruits (growSegments p))"
proof -
  obtain ph pm where g: "growSegments p
     = p\<lparr> physics := ph, particleMap := pm, lastSegmentIndex := endIndex p \<rparr>"
    using growSegments_frame by blast
  show ?thesis
    by (simp add: growPlant_def growConstraints_def constraintsFire_def g)
qed

lemma growing_fields:
  assumes "lastSegmentIndex p < length (plant_segments p)"
  shows "plant_segments (growPlant p) = plant_segments p"
    and "lastSegmentIndex (growPlant p) = endIndex p"
    and "constraintsAdded (growPlant p) = (constraintsAdded p \<or> constraintsFire p)"
proof -
  define G where "G = growSegments p"
  define A where "A = (if constraintsFire p
      then (addAngleConstraints G)\<lparr> constraintsAdded := True \<rparr> else G)"
  obtain ph pm where g: "G
     = p\<lparr> physics := ph, particleMap := pm, lastSegmentIndex := endIndex p \<rparr>"
    using growSegments_frame unfolding G_def by blast
  obtain ph' where a: "addAngleConstraints G = G\<lparr> physics := ph' \<rparr>"
    using addAngleConstraints_frame by blast
  obtain ph'' fp fa where f: "growFruits A
      = A\<lparr> physics := ph'', fruitParticles := fp, fruitsAdded := fa \<rparr>"
    using growFruits_frame by blast
  have gp: "growPlant p = growFruits A"
    using assms by (simp add: growPlant_cases A_def G_def)
  have A: "A = (if constraintsFire p
      then G\<lparr> physics := ph', constraintsAdded := True \<rparr> else G)"
    by (simp add: A_def a)
  have "plant_segments (growFruits A) = plant_segments A" by (simp add: f)
  also have "\<dots> = plant_segments p" by (simp add: A g)
  finally show "plant_segments (growPlant p) = plant_segments p"
    by (simp add: gp)
  have "lastSegmentIndex (growFruits A) = lastSegmentIndex A" by (simp add: f)
  also have "\<dots> = endIndex p" by (simp add: A g)
  finally show "lastSegmentIndex (growPlant p) = endIndex p"
    by (simp add: gp)
  have "constraintsAdded (growFruits A) = constraintsAdded A" by (simp add: f)
  also have "\<dots> = (constraintsAdded p \<or> constraintsFire p)" by (auto simp: A g)
  finally show "constraintsAdded (growPlant p) = (constraintsAdded p \<or> constraintsFire p)"
    by (simp add: gp)
qed

lemma done_fields:
  assumes "lastSegmentIndex p \<ge> length (plant_segments p)"
  shows "growPlant p = p\<lparr> growingPhase := False \<rparr>" and "\<not> constraintsFire p"
  using assms by (simp_all add: growPlant_def constraintsFire_def)

lemma endIndex_progress:
  "lastSegmentIndex p < length (plant_segments p) \<Longrightarrow> lastSegmentIndex p < endIndex p"
  by (simp add: endIndex_def)

lemma constraintsAdded_stays:
  "constraintsAdded p \<Longrightarrow> constraintsAdded ((growPlant ^^ i) p)"
proof (induction i)
  case 0
  then show ?case by simp
next
  case (Suc i)
  let ?q = "(growPlant ^^ i) p"
  from Suc have q: "constraintsAdded ?q" by simp
  show ?case
  proof (cases "lastSegmentIndex ?q < length (plant_segments ?q)")
    case True
    with q show ?thesis by (simp add: growing_fields(3))
  next
    case False
    with q show ?thesis by (simp add: done_fields(1))
  qed
qed

lemma never_fires_once_added:
  "constraintsAdded p \<Longrightarrow> \<not> constraintsFire ((growPlant ^^ i) p)"
  using constraintsAdded_stays [of p i] by (simp add: constraintsFire_def)

lemma fires_eventually:
  "\<not> constraintsAdded p \<Longrightarrow> lastSegmentIndex p < length (plant_segments p) \<Longrightarrow>
     \<exists>i. constraintsFire ((growPlant ^^ i) p)"
proof (induction "length (plant_segments p) - lastSegmentIndex p" arbitrary: p rule: less_induct)
  case less
  show ?case
  proof (cases "constraintsFire p")
    case True
    then have "constraintsFire ((growPlant ^^ 0) p)" by simp
    then show ?thesis by blast
  next
    case False
    let ?q = "growPlant p"
    from False less.prems have below: "real (endIndex p) < real (length (plant_segments p)) * 0.8"
      by (simp add: constraintsFire_def)
    have "real (length (plant_segments p)) * 0.8 \<le> real (length (plant_segments p))"
      by simp
    with below have "endIndex p < length (plant_segments p)" by linarith
    then have 1: "lastSegmentIndex ?q < length (plant_segments ?q)"
      using less.prems by (simp add: growing_fields)
    have 2: "\<not> constraintsAdded ?q"
      using less.prems False by (simp add: growing_fields)
    have 3: "length (plant_segments ?q) - lastSegmentIndex ?q
        < length (plant_segments p) - lastSegmentIndex p"
      using less.prems endIndex_progress [of p] 1 by (simp add: growing_fields)
    from less.hyps [OF 3 2 1] obtain i where "constraintsFire ((growPlant ^^ i) ?q)" by blast
    then have "constraintsFire ((growPlant ^^ Suc i) p)"
      by (simp add: funpow_swap1)
    then show ?thesis by blast
  qed
qed

lemma fires_at_most_once:
  assumes i: "constraintsFire ((growPlant ^^ i) p)" and j: "constraintsFire ((growPlant ^^ j) p)"
  shows "i = j"
proof -
  have later: "\<not> constraintsFire ((growPlant ^^ (Suc d + a)) p)"
    if "constraintsFire ((growPlant ^^ a) p)" for a d
  proof -
    let ?q = "(growPlant ^^ a) p"
    from that have "lastSegmentIndex ?q < length (plant_segments ?q)"
      by (simp add: constraintsFire_def)
    with that have "constraintsAdded (growPlant ?q)" by (simp add: growing_fields(3))
    then have "\<not> constraintsFire ((growPlant ^^ d) (growPlant ?q))"
      by (rule never_fires_once_added)
    moreover have "(growPlant ^^ (Suc d + a)) p = (growPlant ^^ d) (growPlant ?q)"
      by (simp add: funpow_add funpow_swap1)
    ultimately show ?thesis by simp
  qed
  show ?thesis
  proof (rule ccontr)
    assume "i \<noteq> j"
    then consider d where "j = Suc d + i" | d where "i = Suc d + j"
      by (metis add.commute add_Suc_right less_imp_Suc_add nat_neq_iff)
    then show False
      using later i j by cases auto
  qed
qed

text \<open>The groups of \<open>startPointMap\<close>: for each start key, in the order of first occurrence,
  the segments with that key.\<close>

lemma firsts_set: "set (firsts xs) = set xs"
  by (induction xs) auto

lemma firsts_distinct: "distinct (firsts xs)"
  by (induction xs) (auto simp: firsts_set)

lemma firsts_snoc: "firsts (xs @ [k]) = (if k \<in> set xs then firsts xs else firsts xs @ [k])"
  by (induction xs) (auto simp: firsts_set)

lemma group_insert_keyed:
  "distinct ks \<Longrightarrow>
     group_insert k s (map (\<lambda>k'. (k', f k')) ks) =
       (if k \<in> set ks then map (\<lambda>k'. (k', if k' = k then f k' @ [s] else f k')) ks
        else map (\<lambda>k'. (k', f k')) ks @ [(k, [s])])"
  by (induction ks) auto

lemma startPointMap_filter:
  "startPointMap segs =
     map (\<lambda>k. (k, filter (\<lambda>s. startKey s = k) segs)) (firsts (map startKey segs))"
proof (induction segs rule: rev_induct)
  case Nil
  then show ?case by (simp add: startPointMap_def)
next
  case (snoc s segs)
  have step: "startPointMap (segs @ [s]) = group_insert (startKey s) s (startPointMap segs)"
    by (simp add: startPointMap_def)
  show ?case
  proof (cases "startKey s \<in> set (map startKey segs)")
    case True
    then have "startKey s \<in> set (firsts (map startKey segs))" by (simp add: firsts_set)
    then show ?thesis
      using True
      by (simp add: step snoc.IH group_insert_keyed [OF firsts_distinct] firsts_snoc)
  next
    case False
    then have nin: "startKey s \<notin> set (firsts (map startKey segs))" by (simp add: firsts_set)
    have "startKey x \<noteq> startKey s" if "x \<in> set segs" for x
    proof
      assume e: "startKey x = startKey s"
      from that have "startKey x \<in> set (map startKey segs)" by simp
      with e False show False by simp
    qed
    then have none: "filter (\<lambda>s'. startKey s' = startKey s) segs = []"
      by (simp add: filter_empty_conv)
    have other: "k \<in> set (firsts (map startKey segs)) \<Longrightarrow> startKey s \<noteq> k" for k
      using nin by auto
    show ?thesis
      using False nin none other
      by (simp add: step snoc.IH group_insert_keyed [OF firsts_distinct] firsts_snoc)
  qed
qed

text \<open>
  The rest length handed to \<open>createSpring\<close> is not negative, so it is kept; every pair
  appends its angle spring and changes nothing else.
\<close>

lemma cosine_rule_nonneg:
  assumes "0 \<le> (a::real)" and "0 \<le> (b::real)"
  shows "0 \<le> a * a + b * b - 2 * a * b * cos (t::real)"
proof -
  have "0 \<le> a * b" using assms by (rule mult_nonneg_nonneg)
  then have "a * b * cos t \<le> a * b * 1"
    by (rule mult_left_mono [OF cos_le_one])
  moreover have "0 \<le> (a - b) * (a - b)" by simp
  then have "2 * a * b \<le> a * a + b * b" by (simp add: algebra_simps)
  ultimately show ?thesis by simp
qed

lemma dist2_nonneg: "0 \<le> dist2 xa ya xb yb"
  by (simp add: dist2_def)

lemma rest_length_kept:
  "\<not> sqrt (dist2 xa ya xb yb * dist2 xa ya xb yb + dist2 xb yb xc yc * dist2 xb yb xc yc
       - 2 * dist2 xa ya xb yb * dist2 xb yb xc yc * cos t) < 0"
  using cosine_rule_nonneg [OF dist2_nonneg dist2_nonneg, of xa ya xb yb xb yb xc yc t]
  by (simp add: not_less)

lemma withSprings_fields:
  "particleMap (withSprings p new) = particleMap p"
  "heap (physics (withSprings p new)) = heap (physics p)"
  "springs (physics (withSprings p new)) = springs (physics p) @ new"
  "plant_segments (withSprings p new) = plant_segments p"
  by (simp_all add: withSprings_def)

lemma withSprings_append:
  "(withSprings p acc)\<lparr> physics := (physics (withSprings p acc))
      \<lparr> springs := springs (physics (withSprings p acc)) @ new \<rparr> \<rparr>
   = withSprings p (acc @ new)"
  by (simp add: withSprings_def)

lemma createAngleConstraint_appends:
  "snd (createAngleConstraint (map_of (particleMap p) (endKey sa))
          (map_of (particleMap p) (startKey sa)) (map_of (particleMap p) (endKey sb))
          \<bar>originalAngle sa - originalAngle sb\<bar>
          (map_range (real (depth sa)) 0 10 0.01 0.002) ph)
   = ph\<lparr> springs := springs ph @ angleSpring (p\<lparr> physics := ph \<rparr>) sa sb \<rparr>"
  using rest_length_kept
  by (simp add: createAngleConstraint_def createSpring_def angleSpring_def Let_def
      springDamping_def split: option.splits)

lemma constrainPair_appends:
  "constrainPair (map_of (particleMap p) (startKey sa)) (sa, sb) (withSprings p acc)
   = withSprings p (acc @ angleSpring p sa sb)"
  using rest_length_kept
  by (simp add: constrainPair_def createAngleConstraint_def createSpring_def angleSpring_def
      withSprings_def Let_def springDamping_def split: option.splits)

lemma fold_constrainPair_appends:
  assumes "\<forall>ab\<in>set prs. startKey (fst ab) = k"
  shows "fold (constrainPair (map_of (particleMap p) k)) prs (withSprings p acc)
   = withSprings p (acc @ concat (map (\<lambda>ab. angleSpring p (fst ab) (snd ab)) prs))"
  using assms
proof (induction prs arbitrary: acc)
  case Nil
  then show ?case by simp
next
  case (Cons ab prs)
  obtain sa sb where ab: "ab = (sa, sb)" by (cases ab)
  from Cons.prems ab have k: "startKey sa = k" by simp
  from Cons.prems have rest: "\<forall>ab\<in>set prs. startKey (fst ab) = k" by simp
  have "fold (constrainPair (map_of (particleMap p) k)) (ab # prs) (withSprings p acc)
      = fold (constrainPair (map_of (particleMap p) k)) prs
          (withSprings p (acc @ angleSpring p sa sb))"
    using constrainPair_appends [of p sa sb acc] by (simp add: ab k)
  also have "\<dots> = withSprings p ((acc @ angleSpring p sa sb)
      @ concat (map (\<lambda>ab. angleSpring p (fst ab) (snd ab)) prs))"
    by (rule Cons.IH [OF rest])
  finally show ?case by (simp add: ab)
qed

lemma pairs_members: "(a, b) \<in> set (pairs xs) \<Longrightarrow> a \<in> set xs \<and> b \<in> set xs"
  by (induction xs) auto

lemma constrainGroup_appends:
  "constrainGroup (k, filter (\<lambda>s. startKey s = k) segs) (withSprings p acc)
   = withSprings p (acc @ concat (map (\<lambda>ab. angleSpring p (fst ab) (snd ab))
        (pairs (filter (\<lambda>s. startKey s = k) segs))))"
proof (cases "2 \<le> length (filter (\<lambda>s. startKey s = k) segs)")
  case True
  have keyed: "\<forall>ab\<in>set (pairs (filter (\<lambda>s. startKey s = k) segs)). startKey (fst ab) = k"
  proof
    fix ab
    assume "ab \<in> set (pairs (filter (\<lambda>s. startKey s = k) segs))"
    then have "(fst ab, snd ab) \<in> set (pairs (filter (\<lambda>s. startKey s = k) segs))"
      by simp
    from pairs_members [OF this]
    have "fst ab \<in> set (filter (\<lambda>s. startKey s = k) segs)" by (rule conjunct1)
    then show "startKey (fst ab) = k" by simp
  qed
  from True show ?thesis
    by (simp add: constrainGroup_def withSprings_fields fold_constrainPair_appends [OF keyed])
next
  case False
  then have "pairs (filter (\<lambda>s. startKey s = k) segs) = []"
    by (cases "filter (\<lambda>s. startKey s = k) segs") (simp_all add: Suc_le_eq)
  with False show ?thesis by (simp add: constrainGroup_def)
qed

lemma fold_constrainGroup_appends:
  "fold constrainGroup (map (\<lambda>k. (k, filter (\<lambda>s. startKey s = k) segs)) ks) (withSprings p acc)
   = withSprings p (acc @ concat (map (\<lambda>k. concat (map (\<lambda>ab. angleSpring p (fst ab) (snd ab))
        (pairs (filter (\<lambda>s. startKey s = k) segs)))) ks))"
proof (induction ks arbitrary: acc)
  case Nil
  then show ?case by simp
next
  case (Cons k ks)
  show ?case
    by (simp add: constrainGroup_appends Cons.IH)
qed

lemma withSprings_Nil: "withSprings p [] = p"
  by (simp add: withSprings_def)

lemma addAngleConstraints_appends:
  "addAngleConstraints p = withSprings p (angleSprings p)"
  using fold_constrainGroup_appends [of "plant_segments p"
      "firsts (map startKey (plant_segments p))" p "[]"]
  by (simp add: addAngleConstraints_def startPointMap_filter angleSprings_def withSprings_Nil)

text \<open>The springs of a batch of segments, in order, with the bodies of their keys.\<close>

lemma fold_setup_ends:
  "\<exists>new. springs (physics (fold setupSegmentPhysics segs p)) = springs (physics p) @ new
      \<and> length new = length segs
      \<and> (\<forall>n<length segs.
            map_of (particleMap (fold setupSegmentPhysics segs p)) (startKey (segs ! n))
              = Some (bodyA (new ! n))
          \<and> map_of (particleMap (fold setupSegmentPhysics segs p)) (endKey (segs ! n))
              = Some (bodyB (new ! n)))"
proof (induction segs arbitrary: p)
  case Nil
  then show ?case by simp
next
  case (Cons s segs)
  let ?p1 = "setupSegmentPhysics s p"
  let ?p2 = "fold setupSegmentPhysics segs ?p1"
  obtain sp where sp: "springs (physics ?p1) = springs (physics p) @ [sp]"
      "map_of (particleMap ?p1) (startKey s) = Some (bodyA sp)"
      "map_of (particleMap ?p1) (endKey s) = Some (bodyB sp)"
    using setup_ends [of s p] by blast
  obtain new where new: "springs (physics ?p2) = springs (physics ?p1) @ new"
      "length new = length segs"
      "\<forall>n<length segs.
            map_of (particleMap ?p2) (startKey (segs ! n)) = Some (bodyA (new ! n))
          \<and> map_of (particleMap ?p2) (endKey (segs ! n)) = Some (bodyB (new ! n))"
    using Cons.IH [of ?p1] by blast
  have a: "springs (physics (fold setupSegmentPhysics (s # segs) p))
      = springs (physics p) @ (sp # new)"
    by (simp add: new(1) sp(1))
  have b: "length (sp # new) = length (s # segs)"
    by (simp add: new(2))
  have c: "map_of (particleMap (fold setupSegmentPhysics (s # segs) p)) (startKey ((s # segs) ! n))
              = Some (bodyA ((sp # new) ! n))
          \<and> map_of (particleMap (fold setupSegmentPhysics (s # segs) p)) (endKey ((s # segs) ! n))
              = Some (bodyB ((sp # new) ! n))" if n: "n < length (s # segs)" for n
  proof (cases n)
    case 0
    then show ?thesis
      using fold_setup_map_mono [OF sp(2), of segs] fold_setup_map_mono [OF sp(3), of segs]
      by simp
  next
    case (Suc m)
    with n have "m < length segs" by simp
    with new(3) Suc show ?thesis by simp
  qed
  from a b c show ?case by blast
qed

lemma endIndex_le: "endIndex p \<le> length (plant_segments p)"
  by (simp add: endIndex_def)

lemma growSegments_batch:
  "\<exists>batch. springs (physics (growSegments p)) = springs (physics p) @ batch
      \<and> length batch = endIndex p - lastSegmentIndex p
      \<and> (\<forall>n<length batch.
            map (map_of (particleMap (growSegments p)))
                (endpointKeys (plant_segments p ! (lastSegmentIndex p + n)))
              = map Some (springEnds (batch ! n)))"
proof -
  define segs where "segs = take (endIndex p - lastSegmentIndex p)
      (drop (lastSegmentIndex p) (plant_segments p))"
  have len: "length segs = endIndex p - lastSegmentIndex p"
    using endIndex_le [of p] by (simp add: segs_def)
  have nth: "segs ! n = plant_segments p ! (lastSegmentIndex p + n)" if "n < length segs" for n
  proof -
    from that have "n < length (plant_segments p) - lastSegmentIndex p"
      by (simp add: segs_def)
    then have "lastSegmentIndex p \<le> length (plant_segments p)"
      by linarith
    with that show ?thesis by (simp add: segs_def)
  qed
  have pm: "particleMap (growSegments p) = particleMap (fold setupSegmentPhysics segs p)"
    and sp: "springs (physics (growSegments p)) = springs (physics (fold setupSegmentPhysics segs p))"
    by (simp_all add: growSegments_def segs_def)
  obtain new where new: "springs (physics (fold setupSegmentPhysics segs p))
        = springs (physics p) @ new" "length new = length segs"
      "\<forall>n<length segs.
            map_of (particleMap (fold setupSegmentPhysics segs p)) (startKey (segs ! n))
              = Some (bodyA (new ! n))
          \<and> map_of (particleMap (fold setupSegmentPhysics segs p)) (endKey (segs ! n))
              = Some (bodyB (new ! n))"
    using fold_setup_ends [of segs p] by blast
  have "map (map_of (particleMap (growSegments p)))
                (endpointKeys (plant_segments p ! (lastSegmentIndex p + n)))
              = map Some (springEnds (new ! n))" if "n < length new" for n
  proof -
    from that new(2) have n: "n < length segs" by simp
    with new(3) have "map_of (particleMap (fold setupSegmentPhysics segs p)) (startKey (segs ! n))
              = Some (bodyA (new ! n))
          \<and> map_of (particleMap (fold setupSegmentPhysics segs p)) (endKey (segs ! n))
              = Some (bodyB (new ! n))"
      by blast
    then show ?thesis
      by (simp add: pm endpointKeys_def springEnds_def nth [OF n, symmetric])
  qed
  with new(1) new(2) len sp show ?thesis by metis
qed

text \<open>
  C9 (as the code has it). \<open>growPlant\<close> calls \<open>addAngleConstraints\<close> exactly when
  \<open>constraintsFire\<close> holds, and then sets the flag; the count of materialised segments
  is then at least 80 percent of the total. The call appends the angle springs of the
  plant, one for each pair of segments with a common start key, to the springs and
  changes nothing else. The segments of a growth step are materialised before: one
  spring each, between the bodies of the segment's two keys. Once the flag is set no
  later call of \<open>growPlant\<close> computes angle constraints: it returns early or adds
  segment and fruit springs only. For a plant whose flag is not set and which still
  has segments to materialise, the calls of \<open>growPlant\<close> compute the angle constraints
  exactly once.
\<close>

theorem angle_constraints_exactly_once:
  "growPlant p =
     (if lastSegmentIndex p \<ge> length (plant_segments p) then p\<lparr> growingPhase := False \<rparr>
      else if constraintsFire p
        then growFruits ((addAngleConstraints (growSegments p))\<lparr> constraintsAdded := True \<rparr>)
        else growFruits (growSegments p))
   \<and> addAngleConstraints q
       = q\<lparr> physics := (physics q)\<lparr> springs := springs (physics q) @ angleSprings q \<rparr> \<rparr>
   \<and> (\<exists>batch. springs (physics (growSegments p)) = springs (physics p) @ batch
        \<and> length batch = endIndex p - lastSegmentIndex p
        \<and> (\<forall>n<length batch.
              map (map_of (particleMap (growSegments p)))
                  (endpointKeys (plant_segments p ! (lastSegmentIndex p + n)))
                = map Some (springEnds (batch ! n))))
   \<and> (constraintsFire p \<longrightarrow>
        real (lastSegmentIndex (growSegments p)) \<ge> real (length (plant_segments p)) * 0.8
        \<and> constraintsAdded (growPlant p))
   \<and> (constraintsAdded p \<longrightarrow>
        \<not> constraintsFire ((growPlant ^^ i) p)
        \<and> growPlant p =
            (if lastSegmentIndex p \<ge> length (plant_segments p) then p\<lparr> growingPhase := False \<rparr>
             else growFruits (growSegments p)))
   \<and> (\<not> constraintsAdded p \<and> lastSegmentIndex p < length (plant_segments p) \<longrightarrow>
        (\<exists>!i. constraintsFire ((growPlant ^^ i) p)))"
proof -
  have computed: "addAngleConstraints q
       = q\<lparr> physics := (physics q)\<lparr> springs := springs (physics q) @ angleSprings q \<rparr> \<rparr>"
    by (simp add: addAngleConstraints_appends withSprings_def)
  have fire: "real (lastSegmentIndex (growSegments p)) \<ge> real (length (plant_segments p)) * 0.8
        \<and> constraintsAdded (growPlant p)" if f: "constraintsFire p"
  proof -
    obtain ph pm where g: "growSegments p
       = p\<lparr> physics := ph, particleMap := pm, lastSegmentIndex := endIndex p \<rparr>"
      using growSegments_frame by blast
    from f have "lastSegmentIndex p < length (plant_segments p)"
      by (simp add: constraintsFire_def)
    with f have "constraintsAdded (growPlant p)" by (simp add: growing_fields(3))
    with f show ?thesis by (simp add: g constraintsFire_def)
  qed
  have guard: "growPlant p =
            (if lastSegmentIndex p \<ge> length (plant_segments p) then p\<lparr> growingPhase := False \<rparr>
             else growFruits (growSegments p))" if "constraintsAdded p"
  proof -
    from that have "\<not> constraintsFire p" by (simp add: constraintsFire_def)
    then show ?thesis by (simp add: growPlant_cases)
  qed
  have once: "\<exists>!i. constraintsFire ((growPlant ^^ i) p)"
    if "\<not> constraintsAdded p" and "lastSegmentIndex p < length (plant_segments p)"
    using fires_eventually [OF that] fires_at_most_once by blast
  from growPlant_cases computed growSegments_batch fire never_fires_once_added guard once
  show ?thesis by blast
qed

text \<open>
  The plant with the side branch: the first growth step materialises the side branch,
  the second the next segment of the stalk (a spring from body 3 to the new body 5)
  and, 5 of the 6 segments being there, the one angle constraint, between the end of
  the side branch (body 4) and the end of that segment (body 5).
\<close>

lemma fork_start:
  "\<not> constraintsAdded fork" "lastSegmentIndex fork = 3" "length (plant_segments fork) = 6"
  by (simp_all add: fork_def fork_lsystem_def stalk_segment_def side_segment_def
      plant_ev physics_ev)

lemma fork_second_step:
  "constraintsFire (growPlant fork)"
  "lastSegmentIndex (growPlant (growPlant fork)) < length (plant_segments (growPlant (growPlant fork)))"
  by (simp_all add: constraintsFire_def fork_def fork_lsystem_def stalk_segment_def
      side_segment_def plant_ev physics_ev grow_ev)

lemma fork_batch:
  "endIndex (growPlant fork) - lastSegmentIndex (growPlant fork) = 1"
  "map (map_of (particleMap (growSegments (growPlant fork))))
       (endpointKeys (plant_segments (growPlant fork) ! (lastSegmentIndex (growPlant fork) + 0)))
     = [Some 3, Some 5]"
  by (simp_all add: endpointKeys_def fork_def fork_lsystem_def stalk_segment_def
      side_segment_def plant_ev physics_ev grow_ev)

lemma fork_angle_springs:
  "angleSprings (growSegments (growPlant fork))
   = [\<lparr> bodyA = 4, bodyB = 5, len = sqrt 200, stiffness = 23 / 10000, damping = 3 / 100,
        segmentColor = None, segmentThickness = None, spring_depth = None \<rparr>]"
  by (simp add: angleSprings_def angleSpring_def fork_def fork_lsystem_def stalk_segment_def
      side_segment_def plant_ev physics_ev grow_ev)

theorem angle_constraints_exactly_once_witness:
  "process (fst (LSystem fork_config eleventh_rng)) eleventh_rng
     = Inr (fork_lsystem, eleventh_rng)
   \<and> \<not> constraintsAdded fork \<and> lastSegmentIndex fork < length (plant_segments fork)
   \<and> (\<exists>!i. constraintsFire ((growPlant ^^ i) fork))
   \<and> constraintsFire (growPlant fork)
   \<and> (\<exists>batch. springs (physics (growSegments (growPlant fork)))
          = springs (physics (growPlant fork)) @ batch
        \<and> length batch = 1 \<and> map springEnds batch = [[3, 5]])
   \<and> real (lastSegmentIndex (growSegments (growPlant fork)))
       \<ge> real (length (plant_segments (growPlant fork))) * 0.8
   \<and> constraintsAdded (growPlant (growPlant fork))
   \<and> springs (physics (addAngleConstraints (growSegments (growPlant fork))))
       = springs (physics (growSegments (growPlant fork)))
         @ [\<lparr> bodyA = 4, bodyB = 5, len = sqrt 200, stiffness = 23 / 10000, damping = 3 / 100,
              segmentColor = None, segmentThickness = None, spring_depth = None \<rparr>]
   \<and> \<not> constraintsFire ((growPlant ^^ 1) (growPlant (growPlant fork)))
   \<and> growPlant (growPlant (growPlant fork))
       = growFruits (growSegments (growPlant (growPlant fork)))"
proof -
  let ?p1 = "growPlant fork"
  let ?p2 = "growPlant (growPlant fork)"
  have l: "lastSegmentIndex fork < length (plant_segments fork)"
    by (simp add: fork_start)
  note t0 = angle_constraints_exactly_once [of fork fork 0]
  from t0 l fork_start(1) have once: "\<exists>!i. constraintsFire ((growPlant ^^ i) fork)"
    by blast
  note t1 = angle_constraints_exactly_once [of ?p1 "growSegments ?p1" 0]
  from t1 fork_second_step(1)
  have a: "real (lastSegmentIndex (growSegments ?p1)) \<ge> real (length (plant_segments ?p1)) * 0.8"
      "constraintsAdded ?p2"
    by blast+
  from t1 obtain batch where batch:
      "springs (physics (growSegments ?p1)) = springs (physics ?p1) @ batch"
      "length batch = endIndex ?p1 - lastSegmentIndex ?p1"
      "\<forall>n<length batch.
          map (map_of (particleMap (growSegments ?p1)))
              (endpointKeys (plant_segments ?p1 ! (lastSegmentIndex ?p1 + n)))
            = map Some (springEnds (batch ! n))"
    by blast
  from batch(2) have len: "length batch = 1"
    by (simp only: fork_batch(1))
  then have "0 < length batch" by simp
  with batch(3) have "map (map_of (particleMap (growSegments ?p1)))
              (endpointKeys (plant_segments ?p1 ! (lastSegmentIndex ?p1 + 0)))
            = map Some (springEnds (batch ! 0))"
    by blast
  then have "map Some (springEnds (batch ! 0)) = [Some 3, Some 5]"
    by (simp only: fork_batch(2))
  then have ends: "springEnds (batch ! 0) = [3, 5]"
    by (simp add: springEnds_def)
  from len have "batch = [batch ! 0]"
    by (cases batch) simp_all
  then have "map springEnds batch = [springEnds (batch ! 0)]"
    by (metis list.simps(8) list.simps(9))
  with ends have m: "map springEnds batch = [[3, 5]]" by simp
  have "springs (physics (growSegments ?p1)) = springs (physics ?p1) @ batch
      \<and> length batch = 1 \<and> map springEnds batch = [[3, 5]]"
    using batch(1) len m by (intro conjI)
  then have seg: "\<exists>batch. springs (physics (growSegments ?p1)) = springs (physics ?p1) @ batch
      \<and> length batch = 1 \<and> map springEnds batch = [[3, 5]]"
    by (rule exI)
  from t1 have "addAngleConstraints (growSegments ?p1)
      = (growSegments ?p1)\<lparr> physics := (physics (growSegments ?p1))
          \<lparr> springs := springs (physics (growSegments ?p1))
              @ angleSprings (growSegments ?p1) \<rparr> \<rparr>"
    by blast
  then have "springs (physics (addAngleConstraints (growSegments ?p1)))
      = springs (physics (growSegments ?p1)) @ angleSprings (growSegments ?p1)"
    by simp
  then have b: "springs (physics (addAngleConstraints (growSegments ?p1)))
      = springs (physics (growSegments ?p1))
         @ [\<lparr> bodyA = 4, bodyB = 5, len = sqrt 200, stiffness = 23 / 10000, damping = 3 / 100,
              segmentColor = None, segmentThickness = None, spring_depth = None \<rparr>]"
    by (simp only: fork_angle_springs)
  note t2 = angle_constraints_exactly_once [of ?p2 ?p2 1]
  from t2 a(2) have c: "\<not> constraintsFire ((growPlant ^^ 1) ?p2)"
      "growPlant ?p2 = (if lastSegmentIndex ?p2 \<ge> length (plant_segments ?p2)
          then ?p2\<lparr> growingPhase := False \<rparr> else growFruits (growSegments ?p2))"
    by blast+
  from c(2) fork_second_step(2) have d: "growPlant ?p2 = growFruits (growSegments ?p2)"
    by simp
  from fork_processed fork_start(1) l once fork_second_step(1) seg a b c(1) d
  show ?thesis by (intro conjI)
qed

text \<open>
  C9 as the specification states it (exactly once for every plant) fails. The one
  segment of the smallest plant is materialised by the constructor, so every call of
  \<open>growPlant\<close> returns early: the angle constraints are never computed and the flag is
  never set.
\<close>

theorem sprout_never_constrained:
  "process (fst (LSystem sprout_config zero_rng)) zero_rng = Inr (sprout_lsystem, zero_rng)
   \<and> lastSegmentIndex sprout = length (plant_segments sprout)
   \<and> \<not> constraintsAdded sprout
   \<and> growPlant sprout = sprout\<lparr> growingPhase := False \<rparr>
   \<and> (\<forall>i. \<not> constraintsFire ((growPlant ^^ i) sprout))
   \<and> (\<forall>i. springs (physics ((growPlant ^^ i) sprout)) = springs (physics sprout))
   \<and> (\<forall>i. \<not> constraintsAdded ((growPlant ^^ i) sprout))"
proof -
  have a: "lastSegmentIndex sprout = length (plant_segments sprout)" "\<not> constraintsAdded sprout"
    by (simp_all add: sprout_def sprout_lsystem_def plant_ev physics_ev)
  from a(1) have g: "growPlant sprout = sprout\<lparr> growingPhase := False \<rparr>"
    by (simp add: growPlant_def)
  have it: "(growPlant ^^ i) sprout = sprout \<or> (growPlant ^^ i) sprout = sprout\<lparr> growingPhase := False \<rparr>"
    for i
  proof (induction i)
    case 0
    then show ?case by simp
  next
    case (Suc i)
    have "growPlant (sprout\<lparr> growingPhase := False \<rparr>) = sprout\<lparr> growingPhase := False \<rparr>"
      using a(1) by (simp add: growPlant_def)
    with Suc g show ?case by auto
  qed
  have b: "\<not> constraintsFire ((growPlant ^^ i) sprout)" for i
    using it [of i] a(1) by (auto simp: constraintsFire_def)
  have c: "springs (physics ((growPlant ^^ i) sprout)) = springs (physics sprout)" for i
    using it [of i] by auto
  have d: "\<not> constraintsAdded ((growPlant ^^ i) sprout)" for i
    using it [of i] a(2) by auto
  from sprout_processed a g b c d show ?thesis by blast
qed


section \<open>Endpoints of springs\<close>

lemma drawn_keys_differ:
  assumes "drawn s"
  shows "startKey s \<noteq> endKey s"
proof
  assume eq: "startKey s = endKey s"
  let ?c = "cos (originalAngle s)" and ?s = "sin (originalAngle s)"
  from eq have kx: "toFixed2 (x1 s) = toFixed2 (x2 s)" and ky: "toFixed2 (y1 s) = toFixed2 (y2 s)"
    by (simp_all add: startKey_def endKey_def point_key_def)
  have "\<bar>x1 s - x2 s\<bar> < 1 / 100" "\<bar>y1 s - y2 s\<bar> < 1 / 100"
    using toFixed2_eq_close [OF kx] toFixed2_eq_close [OF ky] by blast+
  with assms have "\<bar>?c * 10\<bar> < 1 / 100" "\<bar>?s * 10\<bar> < 1 / 100"
    by (simp_all add: drawn_def)
  then have c: "\<bar>?c\<bar> < 1 / 2" and s: "\<bar>?s\<bar> < 1 / 2"
    by (simp_all add: abs_mult)
  have "?c * ?c = \<bar>?c\<bar> * \<bar>?c\<bar>" by simp
  also have "\<dots> < (1 / 2) * (1 / 2)"
    using c by (intro mult_strict_mono) auto
  finally have c2: "?c * ?c < 1 / 4" by simp
  have "?s * ?s = \<bar>?s\<bar> * \<bar>?s\<bar>" by simp
  also have "\<dots> < (1 / 2) * (1 / 2)"
    using s by (intro mult_strict_mono) auto
  finally have s2: "?s * ?s < 1 / 4" by simp
  have "?s * ?s + ?c * ?c = 1"
    using sin_cos_squared_add [of "originalAngle s"] by (simp add: power2_eq_square)
  with c2 s2 show False by linarith
qed

text \<open>Every segment the turtle pushes is drawn.\<close>

lemma turtle_step_drawn:
  "list_all drawn (t_segments t) \<Longrightarrow> turtle_step l c t = Inr t' \<Longrightarrow>
     list_all drawn (t_segments t')"
  by (auto simp: drawn_def turtle_step_def Let_def split: if_splits prod.splits list.splits)

lemma turtle_run_drawn:
  "list_all drawn (t_segments t) \<Longrightarrow> turtle_run l cs t = Inr t' \<Longrightarrow>
     list_all drawn (t_segments t')"
proof (induction cs arbitrary: t)
  case Nil
  then show ?case by simp
next
  case (Cons c cs)
  then show ?case
    by (auto split: sum.splits dest: turtle_step_drawn)
qed

lemma process_drawn:
  assumes "process l0 g = Inr (l, g')"
  shows "list_all drawn (segments l)"
proof -
  from assms obtain t where r: "turtle_run l0 (production l0) (turtle_start l0 g) = Inr t"
    and l: "segments l = t_segments t"
    by (auto simp: process_def split: sum.splits)
  have "list_all drawn (t_segments (turtle_start l0 g))"
    by (simp add: turtle_start_def)
  from turtle_run_drawn [OF this r] l show ?thesis by simp
qed

text \<open>Under \<open>map_ok\<close>, a body is bound to one key only.\<close>

lemma map_ok_inj:
  assumes "map_ok p" and "map_of (particleMap p) k1 = Some v"
    and "map_of (particleMap p) k2 = Some v"
  shows "k1 = k2"
proof -
  from assms(2,3) have in1: "(k1, v) \<in> set (particleMap p)" and in2: "(k2, v) \<in> set (particleMap p)"
    by (auto dest: map_of_SomeD)
  from assms(1) have "inj_on snd (set (particleMap p))"
    by (simp add: map_ok_def distinct_map)
  from inj_onD [OF this _ in1 in2] show ?thesis by simp
qed

lemma map_ok_bound:
  "map_ok p \<Longrightarrow> map_of (particleMap p) k = Some v \<Longrightarrow> v < length (heap (physics p))"
  by (fastforce simp: map_ok_def list_all_iff dest: map_of_SomeD)

lemma map_ok_extend:
  assumes "map_ok p" and "particleMap q = particleMap p @ [(k, length (heap (physics p)))]"
    and "length (heap (physics q)) = Suc (length (heap (physics p)))"
  shows "map_ok q"
proof -
  from assms(1) have d: "distinct (map snd (particleMap p))"
    and b: "\<forall>e\<in>set (particleMap p). snd e < length (heap (physics p))"
    by (simp_all add: map_ok_def list_all_iff)
  from b have fresh: "length (heap (physics p)) \<notin> snd ` set (particleMap p)"
    by auto
  from b have "\<forall>e\<in>set (particleMap p). snd e < Suc (length (heap (physics p)))"
    by auto
  with d fresh show ?thesis
    by (simp add: map_ok_def assms(2,3) list_all_iff)
qed

lemma map_ok_same_map:
  assumes "map_ok p" and "particleMap q = particleMap p"
    and "length (heap (physics p)) \<le> length (heap (physics q))"
  shows "map_ok q"
  using assms by (auto simp: map_ok_def list_all_iff)

lemma startParticle_map_ok: "map_ok p \<Longrightarrow> map_ok (snd (startParticle s p))"
proof (cases "map_of (particleMap p) (startKey s)")
  case None
  assume "map_ok p"
  then show ?thesis
    using startParticle_absent(2,3) [OF None] by (rule map_ok_extend)
next
  case (Some b)
  assume "map_ok p"
  then show ?thesis by (simp add: startParticle_present [OF Some])
qed

lemma endParticle_map_ok: "map_ok p \<Longrightarrow> map_ok (snd (endParticle s p))"
proof (cases "map_of (particleMap p) (endKey s)")
  case None
  assume "map_ok p"
  then show ?thesis
    using endParticle_absent(2,3) [OF None] by (rule map_ok_extend)
next
  case (Some b)
  assume "map_ok p"
  then show ?thesis by (simp add: endParticle_present [OF Some])
qed

lemma setup_map_ok: "map_ok p \<Longrightarrow> map_ok (setupSegmentPhysics s p)"
proof -
  assume "map_ok p"
  then have "map_ok (snd (endParticle s (snd (startParticle s p))))"
    by (intro endParticle_map_ok startParticle_map_ok)
  then show ?thesis
    by (rule map_ok_same_map) (simp_all add: setup_particleMap setup_heap)
qed

lemma setup_springs_distinct:
  assumes ok: "map_ok p" and sd: "springs_distinct p" and ne: "startKey s \<noteq> endKey s"
  shows "springs_distinct (setupSegmentPhysics s p)"
proof -
  obtain sp where sp: "springs (physics (setupSegmentPhysics s p)) = springs (physics p) @ [sp]"
    "map_of (particleMap (setupSegmentPhysics s p)) (startKey s) = Some (bodyA sp)"
    "map_of (particleMap (setupSegmentPhysics s p)) (endKey s) = Some (bodyB sp)"
    using setup_ends [of s p] by blast
  have "bodyA sp \<noteq> bodyB sp"
  proof
    assume "bodyA sp = bodyB sp"
    with map_ok_inj [OF setup_map_ok [OF ok] sp(2)] sp(3) have "startKey s = endKey s"
      by simp
    with ne show False by simp
  qed
  with sd show ?thesis by (simp add: springs_distinct_def sp(1))
qed

lemma fold_setup_invariant:
  assumes "map_ok p" and "springs_distinct p" and "list_all drawn segs"
  shows "map_ok (fold setupSegmentPhysics segs p)
    \<and> springs_distinct (fold setupSegmentPhysics segs p)"
  using assms
proof (induction segs arbitrary: p)
  case Nil
  then show ?case by simp
next
  case (Cons s segs)
  from Cons.prems have "startKey s \<noteq> endKey s" by (simp add: drawn_keys_differ)
  with Cons.prems have "map_ok (setupSegmentPhysics s p)"
    "springs_distinct (setupSegmentPhysics s p)"
    by (simp_all add: setup_map_ok setup_springs_distinct)
  with Cons.IH [of "setupSegmentPhysics s p"] Cons.prems show ?case by simp
qed

text \<open>Angle constraints: the pairs of a group are pairs of the segment list.\<close>

lemma createAngleConstraint_heap:
  "heap (snd (createAngleConstraint a c b ang st ph)) = heap ph"
  by (cases a; cases b; cases c)
     (simp_all add: createAngleConstraint_def createSpring_def Let_def)

lemma createAngleConstraint_springs:
  "springs (snd (createAngleConstraint (Some a) c (Some b) ang st ph)) = springs ph
   \<or> (\<exists>sp. springs (snd (createAngleConstraint (Some a) c (Some b) ang st ph))
           = springs ph @ [sp] \<and> bodyA sp = a \<and> bodyB sp = b)"
  by (cases c) (simp_all add: createAngleConstraint_def createSpring_def Let_def)

lemma constrainPair_invariant:
  assumes ok: "map_ok p" and sd: "springs_distinct p"
    and ne: "endKey (fst ab) \<noteq> endKey (snd ab)"
  shows "map_ok (constrainPair c ab p) \<and> springs_distinct (constrainPair c ab p)"
proof (cases ab)
  case (Pair segmentA segmentB)
  show ?thesis
  proof (cases "map_of (particleMap p) (endKey segmentA)")
    case None
    with ok sd show ?thesis by (simp add: constrainPair_def Pair)
  next
    case (Some ea)
    note A = Some
    show ?thesis
    proof (cases "map_of (particleMap p) (endKey segmentB)")
      case None
      with ok sd A show ?thesis by (simp add: constrainPair_def Pair)
    next
      case (Some eb)
      let ?r = "createAngleConstraint (Some ea) c (Some eb)
                  \<bar>originalAngle segmentA - originalAngle segmentB\<bar>
                  (map_range (real (depth segmentA)) 0 10 0.01 0.002) (physics p)"
      have cp: "constrainPair c ab p = p\<lparr> physics := snd ?r \<rparr>"
        by (simp add: constrainPair_def Pair A Some)
      from ne Pair have "endKey segmentA \<noteq> endKey segmentB" by simp
      have diff: "ea \<noteq> eb"
      proof
        assume "ea = eb"
        with A Some have "map_of (particleMap p) (endKey segmentB) = Some ea" by simp
        from map_ok_inj [OF ok A this] \<open>endKey segmentA \<noteq> endKey segmentB\<close>
        show False by simp
      qed
      have h: "heap (snd ?r) = heap (physics p)"
        by (rule createAngleConstraint_heap)
      have s: "springs (snd ?r) = springs (physics p)
          \<or> (\<exists>sp. springs (snd ?r) = springs (physics p) @ [sp] \<and> bodyA sp = ea \<and> bodyB sp = eb)"
        by (rule createAngleConstraint_springs)
      have 1: "map_ok (constrainPair c ab p)"
        using ok by (rule map_ok_same_map) (simp_all add: cp createAngleConstraint_heap)
      have 2: "springs_distinct (constrainPair c ab p)"
      proof (rule disjE [OF s])
        assume "springs (snd ?r) = springs (physics p)"
        with sd show ?thesis by (simp add: springs_distinct_def cp)
      next
        assume "\<exists>sp. springs (snd ?r) = springs (physics p) @ [sp] \<and> bodyA sp = ea \<and> bodyB sp = eb"
        then obtain sp where "springs (snd ?r) = springs (physics p) @ [sp]" "bodyA sp = ea" "bodyB sp = eb"
          by blast
        with sd diff show ?thesis by (simp add: springs_distinct_def cp)
      qed
      from 1 2 show ?thesis by blast
    qed
  qed
qed

lemma fold_constrainPair_invariant:
  assumes "map_ok p" and "springs_distinct p"
    and "\<forall>ab\<in>set xs. endKey (fst ab) \<noteq> endKey (snd ab)"
  shows "map_ok (fold (constrainPair c) xs p) \<and> springs_distinct (fold (constrainPair c) xs p)"
  using assms
proof (induction xs arbitrary: p)
  case Nil
  then show ?case by simp
next
  case (Cons x xs)
  from Cons.prems constrainPair_invariant [of p x c]
  have "map_ok (constrainPair c x p)" "springs_distinct (constrainPair c x p)" by simp_all
  with Cons.IH [of "constrainPair c x p"] Cons.prems show ?case by simp
qed

lemma fold_constrainGroup_invariant:
  assumes "map_ok p" and "springs_distinct p"
    and "\<forall>e\<in>set gs. \<forall>ab\<in>set (pairs (snd e)). endKey (fst ab) \<noteq> endKey (snd ab)"
  shows "map_ok (fold constrainGroup gs p) \<and> springs_distinct (fold constrainGroup gs p)"
  using assms
proof (induction gs arbitrary: p)
  case Nil
  then show ?case by simp
next
  case (Cons e gs)
  have "map_ok (constrainGroup e p) \<and> springs_distinct (constrainGroup e p)"
  proof (cases e)
    case (Pair k segs)
    with Cons.prems have "\<forall>ab\<in>set (pairs segs). endKey (fst ab) \<noteq> endKey (snd ab)"
      by simp
    with Cons.prems(1,2) fold_constrainPair_invariant [of p "pairs segs" "map_of (particleMap p) k"]
    show ?thesis by (simp add: constrainGroup_def Pair)
  qed
  with Cons.IH [of "constrainGroup e p"] Cons.prems show ?case by simp
qed

lemma group_insert_subseq:
  assumes "\<forall>e\<in>set m. subseq (snd e) seen \<and> (\<forall>s'\<in>set (snd e). startKey s' = fst e)"
  shows "\<forall>e\<in>set (group_insert (startKey s) s m).
           subseq (snd e) (seen @ [s]) \<and> (\<forall>s'\<in>set (snd e). startKey s' = fst e)"
  using assms
proof (induction m)
  case Nil
  then show ?case by (simp add: subseq_singleton_left)
next
  case (Cons e m)
  obtain k' ss where e: "e = (k', ss)" by (cases e)
  from Cons.prems e have ss: "subseq ss seen" "\<forall>s'\<in>set ss. startKey s' = k'"
    by simp_all
  from Cons.prems have rest: "\<forall>e\<in>set m. subseq (snd e) seen \<and> (\<forall>s'\<in>set (snd e). startKey s' = fst e)"
    by simp
  show ?case
  proof (cases "startKey s = k'")
    case True
    have "subseq (ss @ [s]) (seen @ [s])"
      using ss(1) by (intro list_emb_append_mono) simp_all
    moreover have "\<forall>e\<in>set m. subseq (snd e) (seen @ [s])"
      using rest by (auto intro: list_emb_prefix)
    ultimately show ?thesis
      using True ss(2) rest by (auto simp: e)
  next
    case False
    have "subseq ss (seen @ [s])" using ss(1) by (rule list_emb_prefix)
    with False ss(2) Cons.IH [OF rest] show ?thesis by (auto simp: e)
  qed
qed

lemma fold_group_insert_subseq:
  assumes "\<forall>e\<in>set m. subseq (snd e) seen \<and> (\<forall>s'\<in>set (snd e). startKey s' = fst e)"
  shows "\<forall>e\<in>set (fold (\<lambda>s m. group_insert (startKey s) s m) segs m).
           subseq (snd e) (seen @ segs) \<and> (\<forall>s'\<in>set (snd e). startKey s' = fst e)"
  using assms
proof (induction segs arbitrary: m seen)
  case Nil
  then show ?case by simp
next
  case (Cons s segs)
  have a: "\<forall>e\<in>set (group_insert (startKey s) s m).
          subseq (snd e) (seen @ [s]) \<and> (\<forall>s'\<in>set (snd e). startKey s' = fst e)"
    using Cons.prems by (rule group_insert_subseq)
  note b = Cons.IH [of "group_insert (startKey s) s m" "seen @ [s]", OF a]
  have c: "fold (\<lambda>s m. group_insert (startKey s) s m) (s # segs) m
      = fold (\<lambda>s m. group_insert (startKey s) s m) segs (group_insert (startKey s) s m)"
    by simp
  have d: "seen @ s # segs = (seen @ [s]) @ segs" by simp
  show ?case unfolding c d by (rule b)
qed

lemma startPointMap_groups:
  assumes "e \<in> set (startPointMap segs)"
  shows "subseq (snd e) segs \<and> (\<forall>s'\<in>set (snd e). startKey s' = fst e)"
proof -
  have "\<forall>e\<in>set ([] :: (key \<times> segment list) list).
      subseq (snd e) [] \<and> (\<forall>s'\<in>set (snd e). startKey s' = fst e)"
    by simp
  note t = fold_group_insert_subseq [of "[]" "[]" segs, OF this]
  have "\<forall>e\<in>set (startPointMap segs).
      subseq (snd e) segs \<and> (\<forall>s'\<in>set (snd e). startKey s' = fst e)"
    using t by (simp only: startPointMap_def append_Nil)
  then show ?thesis using assms by (rule bspec)
qed

lemma pairs_subseq: "subseq xs ys \<Longrightarrow> set (pairs xs) \<subseteq> set (pairs ys)"
proof (induction rule: list_emb.induct)
  case (list_emb_Nil ys)
  then show ?case by simp
next
  case (list_emb_Cons xs ys y)
  then show ?case by auto
next
  case (list_emb_Cons2 x y xs ys)
  from list_emb_Cons2(2) have "set xs \<subseteq> set ys"
    by (auto elim: list_emb_set)
  with list_emb_Cons2 show ?case by auto
qed

lemma addAngleConstraints_invariant:
  assumes ok: "map_ok p" and sd: "springs_distinct p" and nt: "no_twins (plant_segments p)"
  shows "map_ok (addAngleConstraints p) \<and> springs_distinct (addAngleConstraints p)"
proof -
  have "\<forall>e\<in>set (startPointMap (plant_segments p)).
          \<forall>ab\<in>set (pairs (snd e)). endKey (fst ab) \<noteq> endKey (snd ab)"
  proof (intro ballI)
    fix e ab
    assume e: "e \<in> set (startPointMap (plant_segments p))" and ab: "ab \<in> set (pairs (snd e))"
    from startPointMap_groups [OF e] have sub: "subseq (snd e) (plant_segments p)"
      and key: "\<forall>s'\<in>set (snd e). startKey s' = fst e" by blast+
    from ab pairs_subseq [OF sub] have in_all: "ab \<in> set (pairs (plant_segments p))" by blast
    from ab pairs_members [of "fst ab" "snd ab" "snd e"] key
    have "startKey (fst ab) = startKey (snd ab)" by simp
    with nt in_all show "endKey (fst ab) \<noteq> endKey (snd ab)"
      by (simp add: no_twins_def list_all_iff)
  qed
  with ok sd show ?thesis
    unfolding addAngleConstraints_def by (rule fold_constrainGroup_invariant)
qed

text \<open>Fruits: the nearest particle is one of the map, the fruit's body is new.\<close>

lemma nearestParticle_in_map:
  "nearestParticle hp fx fy m best = Some (q, d) \<Longrightarrow>
     q \<in> snd ` set m \<or> (\<exists>d'. best = Some (q, d'))"
proof (induction m arbitrary: best)
  case Nil
  then show ?case by simp
next
  case (Cons e m)
  obtain k particle where e: "e = (k, particle)" by (cases e)
  from Cons.prems Cons.IH show ?case
    by (fastforce simp: e Let_def split: option.splits prod.splits if_splits)
qed

lemma addFruit_invariant:
  assumes ok: "map_ok p" and sd: "springs_distinct p"
  shows "map_ok (addFruit fr p) \<and> springs_distinct (addFruit fr p)"
proof -
  let ?fx = "plant_x p + fruit_x fr * scaleFactor p"
  let ?fy = "plant_y p + fruit_y fr * scaleFactor p"
  show ?thesis
  proof (cases "nearestParticle (heap (physics p)) ?fx ?fy (particleMap p) None")
    case None
    with ok sd show ?thesis by (simp add: addFruit_def Let_def)
  next
    case (Some r)
    obtain nearest d where r: "r = (nearest, d)" by (cases r)
    from nearestParticle_in_map [of _ _ _ _ None nearest d] Some r
    have "nearest \<in> snd ` set (particleMap p)" by simp
    with ok have bound: "nearest < length (heap (physics p))"
      by (auto simp: map_ok_def list_all_iff)
    have pm: "particleMap (addFruit fr p) = particleMap p"
      by (simp add: addFruit_def Let_def Some r split: prod.splits)
    have hp: "length (heap (physics (addFruit fr p))) = Suc (length (heap (physics p)))"
      by (simp add: addFruit_def Let_def Some r createParticle_def createSpring_def
          split: prod.splits)
    have sp: "\<exists>sp. springs (physics (addFruit fr p)) = springs (physics p) @ [sp]
        \<and> bodyA sp = nearest \<and> bodyB sp = length (heap (physics p))"
      by (simp add: addFruit_def Let_def Some r createParticle_def createSpring_def
          split: prod.splits)
    have 1: "map_ok (addFruit fr p)"
      using ok by (rule map_ok_same_map) (simp_all add: pm hp)
    have 2: "springs_distinct (addFruit fr p)"
      using sp sd bound by (auto simp: springs_distinct_def)
    from 1 2 show ?thesis by blast
  qed
qed

lemma addFruits_invariant:
  assumes "map_ok p" and "springs_distinct p"
  shows "map_ok (addFruits p) \<and> springs_distinct (addFruits p)"
proof -
  have "map_ok q \<Longrightarrow> springs_distinct q \<Longrightarrow>
      map_ok (fold addFruit xs q) \<and> springs_distinct (fold addFruit xs q)" for xs q
  proof (induction xs arbitrary: q)
    case Nil
    then show ?case by simp
  next
    case (Cons x xs)
    from addFruit_invariant [OF Cons.prems, of x] Cons.IH [of "addFruit x q"]
    show ?case by simp
  qed
  with assms show ?thesis by (simp add: addFruits_def)
qed

text \<open>The growth step keeps the two invariants.\<close>

lemma map_ok_fields:
  "map_ok (p\<lparr> lastSegmentIndex := a \<rparr>) = map_ok p"
  "map_ok (p\<lparr> constraintsAdded := b \<rparr>) = map_ok p"
  "map_ok (p\<lparr> fruitsAdded := c \<rparr>) = map_ok p"
  "map_ok (p\<lparr> growingPhase := d \<rparr>) = map_ok p"
  by (simp_all add: map_ok_def)

lemma springs_distinct_fields:
  "springs_distinct (p\<lparr> lastSegmentIndex := a \<rparr>) = springs_distinct p"
  "springs_distinct (p\<lparr> constraintsAdded := b \<rparr>) = springs_distinct p"
  "springs_distinct (p\<lparr> fruitsAdded := c \<rparr>) = springs_distinct p"
  "springs_distinct (p\<lparr> growingPhase := d \<rparr>) = springs_distinct p"
  by (simp_all add: springs_distinct_def)

lemma growSegments_invariant:
  assumes "map_ok p" and "springs_distinct p" and dr: "list_all drawn (plant_segments p)"
  shows "map_ok (growSegments p) \<and> springs_distinct (growSegments p)
    \<and> plant_segments (growSegments p) = plant_segments p"
proof -
  let ?segs = "take (endIndex p - lastSegmentIndex p) (drop (lastSegmentIndex p) (plant_segments p))"
  have "set ?segs \<subseteq> set (plant_segments p)"
    by (meson set_take_subset set_drop_subset subset_trans)
  with dr have "list_all drawn ?segs" by (auto simp: list_all_iff)
  with assms(1,2) have "map_ok (fold setupSegmentPhysics ?segs p)
      \<and> springs_distinct (fold setupSegmentPhysics ?segs p)"
    by (rule fold_setup_invariant)
  moreover obtain ph pm where "growSegments p
      = p\<lparr> physics := ph, particleMap := pm, lastSegmentIndex := endIndex p \<rparr>"
    using growSegments_frame by blast
  then have "plant_segments (growSegments p) = plant_segments p" by simp
  ultimately show ?thesis
    by (simp add: growSegments_def map_ok_fields springs_distinct_fields)
qed

lemma growConstraints_invariant:
  assumes ok: "map_ok p" and sd: "springs_distinct p" and nt: "no_twins (plant_segments p)"
  shows "map_ok (growConstraints p) \<and> springs_distinct (growConstraints p)
    \<and> plant_segments (growConstraints p) = plant_segments p"
proof -
  obtain ph where "addAngleConstraints p = p\<lparr> physics := ph \<rparr>"
    using addAngleConstraints_frame by blast
  then have "plant_segments (addAngleConstraints p) = plant_segments p" by simp
  with addAngleConstraints_invariant [OF ok sd nt] ok sd show ?thesis
    by (simp add: growConstraints_def map_ok_fields springs_distinct_fields)
qed

lemma growFruits_invariant:
  assumes ok: "map_ok p" and sd: "springs_distinct p"
  shows "map_ok (growFruits p) \<and> springs_distinct (growFruits p)
    \<and> plant_segments (growFruits p) = plant_segments p"
proof -
  obtain ph fp where "addFruits p = p\<lparr> physics := ph, fruitParticles := fp \<rparr>"
    using addFruits_frame by blast
  then have "plant_segments (addFruits p) = plant_segments p" by simp
  with addFruits_invariant [OF ok sd] ok sd show ?thesis
    by (simp add: growFruits_def map_ok_fields springs_distinct_fields)
qed

lemma growPlant_invariant:
  assumes ok: "map_ok p" and sd: "springs_distinct p"
    and dr: "list_all drawn (plant_segments p)" and nt: "no_twins (plant_segments p)"
  shows "map_ok (growPlant p) \<and> springs_distinct (growPlant p)
    \<and> plant_segments (growPlant p) = plant_segments p"
proof (cases "lastSegmentIndex p \<ge> length (plant_segments p)")
  case True
  with ok sd show ?thesis
    by (simp add: growPlant_def map_ok_fields springs_distinct_fields)
next
  case False
  note 1 = growSegments_invariant [OF ok sd dr]
  from 1 nt have nt1: "no_twins (plant_segments (growSegments p))" by simp
  from 1 have ok1: "map_ok (growSegments p)" and sd1: "springs_distinct (growSegments p)"
    by blast+
  note 2 = growConstraints_invariant [OF ok1 sd1 nt1]
  from 2 have ok2: "map_ok (growConstraints (growSegments p))"
    and sd2: "springs_distinct (growConstraints (growSegments p))"
    by blast+
  note 3 = growFruits_invariant [OF ok2 sd2]
  from False have "growPlant p = growFruits (growConstraints (growSegments p))"
    by (simp add: growPlant_def)
  with 1 2 3 show ?thesis by simp
qed

lemma newPlant_invariant:
  assumes dr: "list_all drawn (segments l)"
  shows "map_ok (newPlant x y st l sc) \<and> springs_distinct (newPlant x y st l sc)
    \<and> plant_segments (newPlant x y st l sc) = segments l"
proof -
  let ?p0 = "\<lparr> plant_x = x, plant_y = y, growth = 0, stemThickness = st, plant_lsystem = l,
         plant_segments = segments l, plant_fruits = fruits l, scaleFactor = sc,
         physics = MatterPhysics, particleMap = [], fruitParticles = [],
         lastSegmentIndex = 0, totalSegments = length (segments l), growingPhase = True,
         constraintsAdded = False, fruitsAdded = False \<rparr>"
  let ?roots = "take 3 (filter (\<lambda>s. depth s = 0) (segments l))"
  have ok0: "map_ok ?p0" by (simp add: map_ok_def)
  have sd0: "springs_distinct ?p0" by (simp add: springs_distinct_def MatterPhysics_def)
  have "set ?roots \<subseteq> set (segments l)"
    by (meson set_take_subset filter_is_subset subset_trans)
  with dr have "list_all drawn ?roots" by (auto simp: list_all_iff)
  with ok0 sd0 have inv: "map_ok (fold setupSegmentPhysics ?roots ?p0)
      \<and> springs_distinct (fold setupSegmentPhysics ?roots ?p0)"
    by (rule fold_setup_invariant)
  obtain ph pm where "fold setupSegmentPhysics ?roots ?p0
      = ?p0\<lparr> physics := ph, particleMap := pm \<rparr>"
    using fold_setup_frame by blast
  then have "plant_segments (fold setupSegmentPhysics ?roots ?p0) = segments l" by simp
  with inv show ?thesis
    by (simp add: newPlant_def setupInitialRoot_def Let_def map_ok_fields springs_distinct_fields)
qed

text \<open>
  C6 (as the code has it). \<open>createSpring\<close> checks only that both particles exist.
  For a plant built from the segments the turtle has drawn, every spring created by
  the constructor and by any number of growth steps (segment springs, angle-constraint
  springs and fruit springs) joins two different bodies, provided no two segments have
  both the same start key and the same end key.
\<close>

theorem springs_join_distinct_bodies:
  assumes "process l0 g = Inr (l, g')" and "no_twins (segments l)"
  shows "springs_distinct ((growPlant ^^ n) (newPlant x y st l sc))"
proof -
  from assms(1) have dr: "list_all drawn (segments l)" by (rule process_drawn)
  have "map_ok ((growPlant ^^ n) (newPlant x y st l sc))
      \<and> springs_distinct ((growPlant ^^ n) (newPlant x y st l sc))
      \<and> plant_segments ((growPlant ^^ n) (newPlant x y st l sc)) = segments l"
  proof (induction n)
    case 0
    from newPlant_invariant [OF dr] show ?case by simp
  next
    case (Suc n)
    let ?q = "(growPlant ^^ n) (newPlant x y st l sc)"
    from Suc dr assms(2) have "map_ok ?q" "springs_distinct ?q"
      "list_all drawn (plant_segments ?q)" "no_twins (plant_segments ?q)"
      by simp_all
    from growPlant_invariant [OF this] Suc show ?case by simp
  qed
  then show ?thesis by blast
qed

lemma fork_no_twins: "no_twins (segments fork_lsystem)"
  by (simp add: no_twins_def fork_lsystem_def stalk_segment_def side_segment_def
      startKey_def endKey_def point_key_def toFixed2_def)

text \<open>
  Three growth steps complete the plant with the side branch: three springs of the
  initial root, three of the growth steps, one angle constraint and one fruit spring.
\<close>

lemma fork_grown:
  "length (springs (physics (growPlant (growPlant (growPlant fork))))) = 8
   \<and> constraintsAdded (growPlant (growPlant (growPlant fork)))
   \<and> fruitsAdded (growPlant (growPlant (growPlant fork)))"
  by (simp add: fork_def fork_lsystem_def stalk_segment_def side_segment_def
      plant_ev physics_ev grow_ev)

theorem springs_join_distinct_bodies_witness:
  "process (fst (LSystem fork_config eleventh_rng)) eleventh_rng
     = Inr (fork_lsystem, eleventh_rng)
   \<and> no_twins (segments fork_lsystem)
   \<and> length (springs (physics ((growPlant ^^ 3) fork))) = 8
   \<and> springs_distinct ((growPlant ^^ 3) fork)"
proof -
  have three: "(growPlant ^^ 3) fork = growPlant (growPlant (growPlant fork))"
    by (simp add: numeral_3_eq_3)
  have "springs_distinct ((growPlant ^^ 3) (newPlant 100 500 4 fork_lsystem 1))"
    using fork_processed fork_no_twins by (rule springs_join_distinct_bodies)
  then have "springs_distinct ((growPlant ^^ 3) fork)"
    by (simp only: fork_def)
  moreover have "length (springs (physics ((growPlant ^^ 3) fork))) = 8"
    using fork_grown by (simp only: three)
  ultimately show ?thesis
    using fork_processed fork_no_twins by blast
qed

text \<open>The plant with twin segments is what the pipeline builds for the production F[F]F.\<close>

lemma twin_processed:
  "process (fst (LSystem twin_config zero_rng)) zero_rng = Inr (twin_lsystem, zero_rng)"
  by (simp add: cfg_ev turtle_ev twin_config_def twin_lsystem_def stem_segment_def
      branch_segment_def)

text \<open>
  C6 as the specification states it fails: in the plant of F[F]F the branch and the
  continuation of the stem start at the same point and end at the same point. The
  first growth step adds the angle constraint of this pair, a spring whose two ends
  are the one particle of their common end point.
\<close>

theorem twin_segments_self_spring:
  "\<not> springs_distinct (growPlant twin)
   \<and> bodyA (last (springs (physics (growPlant twin))))
       = bodyB (last (springs (physics (growPlant twin))))"
  by (simp add: twin_def twin_lsystem_def stem_segment_def branch_segment_def
      plant_ev physics_ev grow_ev springs_distinct_def)

end
